theory Spec2Isabelle
  imports Main "HOL-Library.Word" "HOL-Library.Multiset"
begin

section \<open>Strings and the standard library\<close>

text \<open>
  A Go string is a sequence of bytes, modelled as \<open>string\<close>. The character classes of the
  regular expressions of \<^verbatim>\<open>autotag.go\<close> are ASCII classes, or complements of ASCII
  classes, so matching byte by byte gives the result of matching rune by rune.
\<close>

definition newline :: char where
  "newline = CHR 0x0A"

definition isDigit :: "char \<Rightarrow> bool" where
  "isDigit c = (c \<in> set ''0123456789'')"

definition isUpper :: "char \<Rightarrow> bool" where
  "isUpper c = (c \<in> set ''ABCDEFGHIJKLMNOPQRSTUVWXYZ'')"

definition isLower :: "char \<Rightarrow> bool" where
  "isLower c = (c \<in> set ''abcdefghijklmnopqrstuvwxyz'')"

definition isAlnum :: "char \<Rightarrow> bool" where
  "isAlnum c = (isDigit c \<or> isUpper c \<or> isLower c)"

text \<open>The class \<^verbatim>\<open>\w\<close> of Go's regexp syntax: \<^verbatim>\<open>[0-9A-Za-z_]\<close>.\<close>

definition isWord :: "char \<Rightarrow> bool" where
  "isWord c = (isAlnum c \<or> c = CHR ''_'')"

text \<open>The class \<^verbatim>\<open>\s\<close> of Go's regexp syntax: \<^verbatim>\<open>[\t\n\f\r ]\<close>.\<close>

definition isSpace :: "char \<Rightarrow> bool" where
  "isSpace c = (c \<in> set [CHR 0x09, CHR 0x0A, CHR 0x0C, CHR 0x0D, CHR '' ''])"

text \<open>
  Case folding under the flag \<^verbatim>\<open>(?i)\<close>. The letters of the three autotag tokens
  (m, a, j, o, r, i, n, p, t, c, h) fold only within ASCII, so folding the text to lower case
  and matching the lower-case token is the case-insensitive match.
\<close>

definition toLower :: "char \<Rightarrow> char" where
  "toLower c =
     (case map_of (zip ''ABCDEFGHIJKLMNOPQRSTUVWXYZ'' ''abcdefghijklmnopqrstuvwxyz'') c of
        Some l \<Rightarrow> l
      | None \<Rightarrow> c)"

text \<open>\<^verbatim>\<open>strings.HasPrefix(s, prefix)\<close>\<close>

definition strings_HasPrefix :: "string \<Rightarrow> string \<Rightarrow> bool" where
  "strings_HasPrefix s p = (take (length p) s = p)"

text \<open>\<^verbatim>\<open>strings.Contains(s, substr)\<close>\<close>

fun strings_Contains :: "string \<Rightarrow> string \<Rightarrow> bool" where
  "strings_Contains [] sub = (sub = [])"
| "strings_Contains (c # s) sub = (strings_HasPrefix (c # s) sub \<or> strings_Contains s sub)"

text \<open>
  \<^verbatim>\<open>strings.Split(s, sep)\<close> for a separator of one byte: the parts between the
  separators, one more than there are separators (\<^verbatim>\<open>Split("", ".")\<close> is \<^verbatim>\<open>[""]\<close>).
\<close>

fun strings_Split :: "string \<Rightarrow> char \<Rightarrow> string list" where
  "strings_Split [] sep = [[]]"
| "strings_Split (c # s) sep =
     (if c = sep then [] # strings_Split s sep
      else (case strings_Split s sep of
              [] \<Rightarrow> [[c]]
            | p # ps \<Rightarrow> (c # p) # ps))"

text \<open>Bytewise lexicographic order, Go's \<^verbatim>\<open><\<close> on strings.\<close>

fun stringLess :: "string \<Rightarrow> string \<Rightarrow> bool" where
  "stringLess [] [] = False"
| "stringLess [] (d # t) = True"
| "stringLess (c # s) [] = False"
| "stringLess (c # s) (d # t) =
     ((of_char c :: nat) < of_char d \<or> (c = d \<and> stringLess s t))"

fun joinWith :: "string \<Rightarrow> string list \<Rightarrow> string" where
  "joinWith sep [] = []"
| "joinWith sep [p] = p"
| "joinWith sep (p # q # ps) = p @ sep @ joinWith sep (q # ps)"

subsection \<open>Decimal numbers\<close>

definition digitVal :: "char \<Rightarrow> nat" where
  "digitVal c =
     (case map_of [(CHR ''0'', 0), (CHR ''1'', 1), (CHR ''2'', 2), (CHR ''3'', 3), (CHR ''4'', 4),
                   (CHR ''5'', 5), (CHR ''6'', 6), (CHR ''7'', 7), (CHR ''8'', 8), (CHR ''9'', 9)] c of
        Some d \<Rightarrow> d
      | None \<Rightarrow> 0)"

definition digitChar :: "nat \<Rightarrow> char" where
  "digitChar d = ''0123456789'' ! (d mod 10)"

definition decimalValue :: "string \<Rightarrow> nat" where
  "decimalValue s = foldl (\<lambda>n c. 10 * n + digitVal c) 0 s"

text \<open>
  \<^verbatim>\<open>strconv.ParseUint(s, 10, 64)\<close>: a syntax error on the empty string and on every
  byte that is not a decimal digit (base 10 takes no sign and no underscore), a range error
  above \<open>2^64 - 1\<close>. \<open>None\<close> is \<^verbatim>\<open>err != nil\<close>.
\<close>

definition strconv_ParseUint :: "string \<Rightarrow> 64 word option" where
  "strconv_ParseUint s =
     (if s = [] \<or> \<not> list_all isDigit s then None
      else if decimalValue s < 2 ^ 64 then Some (word_of_nat (decimalValue s))
      else None)"

text \<open>The decimal digits of a number, and \<^verbatim>\<open>strconv.FormatUint(n, 10)\<close>.\<close>

fun formatNat :: "nat \<Rightarrow> string" where
  "formatNat n =
     (if n < 10 then [digitChar n] else formatNat (n div 10) @ [digitChar (n mod 10)])"

declare formatNat.simps [simp del]

definition strconv_FormatUint :: "64 word \<Rightarrow> string" where
  "strconv_FormatUint n = formatNat (unat n)"

text \<open>\<^verbatim>\<open>strconv.FormatInt(i, 10)\<close>\<close>

definition strconv_FormatInt :: "int \<Rightarrow> string" where
  "strconv_FormatInt i = (if i < 0 then ''-'' @ formatNat (nat (- i)) else formatNat (nat i))"

text \<open>
  \<^verbatim>\<open>strconv.ParseInt(s, 10, 64)\<close>: the value and whether \<^verbatim>\<open>err == nil\<close>. On a
  syntax error the value is 0, on a range error it is the nearest bound.
\<close>

definition strconv_ParseInt :: "string \<Rightarrow> int \<times> bool" where
  "strconv_ParseInt s =
     (case s of
        [] \<Rightarrow> (0, False)
      | c # t \<Rightarrow>
          (let neg = (c = CHR ''-'');
               u = (if c = CHR ''+'' \<or> c = CHR ''-'' then t else s)
           in if u = [] \<or> \<not> list_all isDigit u then (0, False)
              else if \<not> neg \<and> 2 ^ 63 \<le> decimalValue u then (2 ^ 63 - 1, False)
              else if neg \<and> 2 ^ 63 < decimalValue u then (- (2 ^ 63), False)
              else (if neg then - int (decimalValue u) else int (decimalValue u), True)))"

section \<open>Versions\<close>

text \<open>
  The version type of the library \<^verbatim>\<open>github.com/hashicorp/go-version\<close>, which
  \<^verbatim>\<open>autotag.go\<close> imports. A version holds its numeric segments (the library pads them to
  at least three: \<open>major\<close>, \<open>minor\<close>, \<open>patch\<close>, and whatever follows in \<open>extra\<close>), its
  pre-release string and its build metadata string.
\<close>

record version =
  major :: nat
  minor :: nat
  patch :: nat
  extra :: "nat list"
  pre :: string
  metadata :: string

definition Segments :: "version \<Rightarrow> nat list" where
  "Segments v = major v # minor v # patch v # extra v"

definition Prerelease :: "version \<Rightarrow> string" where
  "Prerelease v = pre v"

definition Metadata :: "version \<Rightarrow> string" where
  "Metadata v = metadata v"

text \<open>
  \<^verbatim>\<open>(*Version).String\<close>: the segments joined by dots, then \<^verbatim>\<open>-pre\<close> and
  \<^verbatim>\<open>+metadata\<close> when they are not empty.
\<close>

definition version_String :: "version \<Rightarrow> string" where
  "version_String v =
     joinWith ''.'' (map formatNat (Segments v))
       @ (if pre v \<noteq> [] then ''-'' @ pre v else [])
       @ (if metadata v \<noteq> [] then ''+'' @ metadata v else [])"

subsection \<open>Parsing\<close>

text \<open>
  \<^verbatim>\<open>version.NewVersion\<close> matches its argument, from start to end, against

  \<^verbatim>\<open>v?([0-9]+(\.[0-9]+)*?)\<close>
  \<^verbatim>\<open>(-([0-9]+[0-9A-Za-z\-~]*(\.[0-9A-Za-z\-~]+)*)|(-?([A-Za-z\-~]+[0-9A-Za-z\-~]*(\.[0-9A-Za-z\-~]+)*)))?\<close>
  \<^verbatim>\<open>(\+([0-9A-Za-z\-~]+(\.[0-9A-Za-z\-~]+)*))??\<close>

  The segments are the longest prefix of digits and dots (nothing after them can start with
  either), the pre-release section runs to the first \<^verbatim>\<open>+\<close>, the metadata follows it.
\<close>

definition isVerChar :: "char \<Rightarrow> bool" where
  "isVerChar c = (isAlnum c \<or> c = CHR ''-'' \<or> c = CHR ''~'')"

definition isPreStart :: "char \<Rightarrow> bool" where
  "isPreStart c = (isUpper c \<or> isLower c \<or> c = CHR ''-'' \<or> c = CHR ''~'')"

text \<open>\<^verbatim>\<open>[0-9A-Za-z\-~]+(\.[0-9A-Za-z\-~]+)*\<close>, on the whole of its argument.\<close>

definition validIdents :: "string \<Rightarrow> bool" where
  "validIdents s = list_all (\<lambda>p. p \<noteq> [] \<and> list_all isVerChar p) (strings_Split s (CHR ''.''))"

text \<open>
  The segments, each read by \<^verbatim>\<open>strconv.ParseInt(str, 10, 64)\<close>, which fails from
  \<open>2^63\<close> on.
\<close>

definition parseSegments :: "string \<Rightarrow> nat list option" where
  "parseSegments s =
     (let parts = strings_Split s (CHR ''.'')
      in if list_all (\<lambda>p. p \<noteq> [] \<and> list_all isDigit p \<and> decimalValue p < 2 ^ 63) parts
         then Some (map decimalValue parts)
         else None)"

text \<open>
  The pre-release section: the first alternative (a hyphen, then an identifier that starts
  with a digit) is tried first, then the second with its optional hyphen taken, then without.
\<close>

definition parsePre :: "string \<Rightarrow> string option" where
  "parsePre sec =
     (case sec of
        [] \<Rightarrow> Some []
      | c # t \<Rightarrow>
          if c = CHR ''-'' \<and> t \<noteq> [] \<and> isDigit (hd t) \<and> validIdents t then Some t
          else if c = CHR ''-'' \<and> t \<noteq> [] \<and> isPreStart (hd t) \<and> validIdents t then Some t
          else if isPreStart c \<and> validIdents sec then Some sec
          else None)"

definition parseMeta :: "string \<Rightarrow> string option" where
  "parseMeta sec =
     (case sec of
        [] \<Rightarrow> Some []
      | c # m \<Rightarrow> if validIdents m then Some m else None)"

definition padSegments :: "nat list \<Rightarrow> string \<Rightarrow> string \<Rightarrow> version" where
  "padSegments ns p m =
     (case ns of
        [] \<Rightarrow> \<lparr>major = 0, minor = 0, patch = 0, extra = [], pre = p, metadata = m\<rparr>
      | [a] \<Rightarrow> \<lparr>major = a, minor = 0, patch = 0, extra = [], pre = p, metadata = m\<rparr>
      | [a, b] \<Rightarrow> \<lparr>major = a, minor = b, patch = 0, extra = [], pre = p, metadata = m\<rparr>
      | a # b # c # r \<Rightarrow> \<lparr>major = a, minor = b, patch = c, extra = r, pre = p, metadata = m\<rparr>)"

definition version_NewVersion :: "string \<Rightarrow> version option" where
  "version_NewVersion v =
     (let s = (case v of [] \<Rightarrow> v | c # t \<Rightarrow> if c = CHR ''v'' then t else v);
          isSeg = (\<lambda>c. isDigit c \<or> c = CHR ''.'');
          rest = dropWhile isSeg s;
          notPlus = (\<lambda>c. c \<noteq> CHR ''+'')
      in case parseSegments (takeWhile isSeg s) of
           None \<Rightarrow> None
         | Some ns \<Rightarrow>
             (case parsePre (takeWhile notPlus rest) of
                None \<Rightarrow> None
              | Some p \<Rightarrow>
                  (case parseMeta (dropWhile notPlus rest) of
                     None \<Rightarrow> None
                   | Some m \<Rightarrow> Some (padSegments ns p m))))"

subsection \<open>Precedence\<close>

definition allZero :: "nat list \<Rightarrow> bool" where
  "allZero ns = list_all (\<lambda>n. n = 0) ns"

text \<open>
  The segment loop of \<^verbatim>\<open>(*Version).Compare\<close>: when one list ends first, the versions are
  equal if the rest of the other is all zeros.
\<close>

fun compareSegments :: "nat list \<Rightarrow> nat list \<Rightarrow> int" where
  "compareSegments [] [] = 0"
| "compareSegments [] (y # ys) = (if allZero (y # ys) then 0 else - 1)"
| "compareSegments (x # xs) [] = (if allZero (x # xs) then 0 else 1)"
| "compareSegments (x # xs) (y # ys) =
     (if x = y then compareSegments xs ys else if x < y then - 1 else 1)"

text \<open>\<^verbatim>\<open>comparePart\<close> of the library: one dot-separated part of each pre-release.\<close>

definition comparePart :: "string \<Rightarrow> string \<Rightarrow> int" where
  "comparePart preSelf preOther =
     (if preSelf = preOther then 0
      else (let (selfInt, selfNumeric) = strconv_ParseInt preSelf;
                (otherInt, otherNumeric) = strconv_ParseInt preOther
            in if preSelf = [] then (if otherNumeric then - 1 else 1)
               else if preOther = [] then (if selfNumeric then 1 else - 1)
               else if selfNumeric \<and> \<not> otherNumeric then - 1
               else if \<not> selfNumeric \<and> otherNumeric then 1
               else if \<not> selfNumeric \<and> \<not> otherNumeric \<and> stringLess preOther preSelf then 1
               else if otherInt < selfInt then 1
               else - 1))"

text \<open>
  The loop of \<^verbatim>\<open>comparePrereleases\<close> over the parts, a missing part read as the empty
  string; the first difference decides.
\<close>

fun compareParts :: "string list \<Rightarrow> string list \<Rightarrow> int" where
  "compareParts [] [] = 0"
| "compareParts [] (q # qs) =
     (if comparePart [] q \<noteq> 0 then comparePart [] q else compareParts [] qs)"
| "compareParts (p # ps) [] =
     (if comparePart p [] \<noteq> 0 then comparePart p [] else compareParts ps [])"
| "compareParts (p # ps) (q # qs) =
     (if comparePart p q \<noteq> 0 then comparePart p q else compareParts ps qs)"

definition comparePrereleases :: "string \<Rightarrow> string \<Rightarrow> int" where
  "comparePrereleases v other =
     (if v = other then 0
      else compareParts (strings_Split v (CHR ''.'')) (strings_Split other (CHR ''.'')))"

text \<open>
  \<^verbatim>\<open>(*Version).Compare\<close>. The library first answers 0 when both versions print as the
  same string; the cases below give 0 for such a pair as well, so that shortcut is left out.
  Build metadata takes no part in the comparison.
\<close>

definition Compare :: "version \<Rightarrow> version \<Rightarrow> int" where
  "Compare v other =
     (if Segments v = Segments other then
        (if Prerelease v = [] \<and> Prerelease other = [] then 0
         else if Prerelease v = [] then 1
         else if Prerelease other = [] then - 1
         else comparePrereleases (Prerelease v) (Prerelease other))
      else compareSegments (Segments v) (Segments other))"

definition Equal :: "version \<Rightarrow> version \<Rightarrow> bool" where
  "Equal v o' = (Compare v o' = 0)"

definition GreaterThan :: "version \<Rightarrow> version \<Rightarrow> bool" where
  "GreaterThan v o' = (0 < Compare v o')"

definition LessThan :: "version \<Rightarrow> version \<Rightarrow> bool" where
  "LessThan v o' = (Compare v o' < 0)"

section \<open>Bump magnitudes\<close>

text \<open>
  The three values of the interface \<^verbatim>\<open>bumper\<close>; a nil bumper is \<open>None\<close>.
\<close>

datatype bumper = majorBumper | minorBumper | patchBumper

section \<open>The commit classifier\<close>

subsection \<open>Autotag scheme\<close>

text \<open>
  \<^verbatim>\<open>majorRex = (?i)\[major\]|\#major\<close>, and the same for minor and patch.
  \<^verbatim>\<open>MatchString\<close> looks for the pattern anywhere in its argument.
\<close>

definition majorRex :: "string \<Rightarrow> bool" where
  "majorRex s = (strings_Contains (map toLower s) ''[major]''
               \<or> strings_Contains (map toLower s) ''#major'')"

definition minorRex :: "string \<Rightarrow> bool" where
  "minorRex s = (strings_Contains (map toLower s) ''[minor]''
               \<or> strings_Contains (map toLower s) ''#minor'')"

definition patchRex :: "string \<Rightarrow> bool" where
  "patchRex s = (strings_Contains (map toLower s) ''[patch]''
               \<or> strings_Contains (map toLower s) ''#patch'')"

definition parseAutotagCommit :: "string \<Rightarrow> bumper option" where
  "parseAutotagCommit msg =
     (if majorRex msg then Some majorBumper
      else if minorRex msg then Some minorBumper
      else if patchRex msg then Some patchBumper
      else None)"

subsection \<open>Conventional Commits scheme\<close>

text \<open>
  \<^verbatim>\<open>conventionalCommitRex =
  ^\s*(?P<type>\w+)(?P<scope>(?:\([^()\r\n]*\)|\()?(?P<breaking>!)?)(?P<subject>:.*)?\<close>

  The pattern is anchored at the start of the text. \<^verbatim>\<open>\s*\<close> and \<^verbatim>\<open>\w+\<close> are
  greedy over disjoint classes, and everything after the type is optional, so the leftmost-first
  match never backtracks: each optional piece is taken when it is there.
\<close>

text \<open>\<^verbatim>\<open>(?:\([^()\r\n]*\)|\()?\<close>: the text matched, and the rest.\<close>

definition scopeRex :: "string \<Rightarrow> string \<times> string" where
  "scopeRex s =
     (case s of
        [] \<Rightarrow> ([], s)
      | c # r \<Rightarrow>
          if c = CHR ''('' then
            (let inScope = (\<lambda>x. x \<notin> set [CHR ''('', CHR '')'', CHR 0x0D, CHR 0x0A]);
                 body = takeWhile inScope r;
                 after = dropWhile inScope r
             in case after of
                  [] \<Rightarrow> (''('', r)
                | d # r' \<Rightarrow> if d = CHR '')'' then (''('' @ body @ '')'', r') else (''('', r))
          else ([], s))"

text \<open>\<^verbatim>\<open>(?P<breaking>!)?\<close>\<close>

definition breakingRex :: "string \<Rightarrow> string \<times> string" where
  "breakingRex s =
     (case s of
        [] \<Rightarrow> ([], s)
      | c # r \<Rightarrow> if c = CHR ''!'' then (''!'', r) else ([], s))"

text \<open>\<^verbatim>\<open>(?P<subject>:.*)?\<close>; the dot matches every byte but the newline.\<close>

definition subjectRex :: "string \<Rightarrow> string" where
  "subjectRex s =
     (case s of
        [] \<Rightarrow> []
      | c # r \<Rightarrow> if c = CHR '':'' then c # takeWhile (\<lambda>x. x \<noteq> newline) r else [])"

text \<open>
  The named groups of a match, as \<^verbatim>\<open>findNamedMatches\<close> returns them; \<open>None\<close> is the
  empty map of a text that does not match.
\<close>

record namedMatches =
  type_group :: string
  scope_group :: string
  breaking_group :: string
  subject_group :: string

definition findNamedMatches :: "string \<Rightarrow> namedMatches option" where
  "findNamedMatches str =
     (let s1 = dropWhile isSpace str;
          ty = takeWhile isWord s1;
          s2 = dropWhile isWord s1
      in if ty = [] then None
         else (let (sc, s3) = scopeRex s2;
                   (br, s4) = breakingRex s3
               in Some \<lparr>type_group = ty, scope_group = sc @ br, breaking_group = br,
                         subject_group = subjectRex s4\<rparr>))"

definition conventionalCommitAuthorizedTypes :: "string \<Rightarrow> bumper option" where
  "conventionalCommitAuthorizedTypes =
     map_of [(''feat'', minorBumper),
             (''build'', patchBumper),
             (''chore'', patchBumper),
             (''ci'', patchBumper),
             (''docs'', patchBumper),
             (''fix'', patchBumper),
             (''perf'', patchBumper),
             (''refactor'', patchBumper),
             (''revert'', patchBumper),
             (''style'', patchBumper),
             (''test'', patchBumper)]"

text \<open>\<^verbatim>\<open>matches["type"]\<close>: the empty string when the key is absent.\<close>

definition matches_type :: "namedMatches option \<Rightarrow> string" where
  "matches_type m = (case m of None \<Rightarrow> [] | Some g \<Rightarrow> type_group g)"

definition parseConventionalCommit :: "string \<Rightarrow> bool \<Rightarrow> bumper option" where
  "parseConventionalCommit msg strictMatch =
     (let matches = findNamedMatches msg;
          bumperType = conventionalCommitAuthorizedTypes (matches_type matches)
      in if strictMatch \<and> bumperType = None then None
         else if strings_Contains msg (newline # ''BREAKING CHANGE:'') then Some majorBumper
         else if (case matches of None \<Rightarrow> False | Some g \<Rightarrow> breaking_group g = ''!'')
           then Some majorBumper
         else bumperType)"

section \<open>Errors\<close>

text \<open>
  Every \<^verbatim>\<open>return err\<close> of \<^verbatim>\<open>autotag.go\<close> is a constructor; a result is
  \<open>error + 'a\<close>, with \<open>Inl\<close> the error.
\<close>

datatype error =
    InvalidBuildMetadata string
  | MetadataWithBuildNumber string
  | InvalidPreReleaseName string
  | InvalidPreReleaseTimestamp string
  | OpenRepoFailed string
  | BranchesFailed
  | NoMainOrMaster
  | FetchTagsFailed
  | ReadCommitFailed string
  | NoStableTags
  | EmptyTag
  | HeadCommitFailed
  | BranchCommitFailed
  | PreReleaseAlreadySet
  | PrereleaseNumberNotUnsigned
  | SameCommit
  | NilCommit
  | NoMatchForCommit string
  | NoBumpInMessages
  | CustomMetadataWithBuildNumber
  | BuildNumberNotUnsigned
  | MalformedVersion string

definition isConfigError :: "error \<Rightarrow> bool" where
  "isConfigError e =
     (case e of
        InvalidBuildMetadata s \<Rightarrow> True
      | MetadataWithBuildNumber s \<Rightarrow> True
      | InvalidPreReleaseName s \<Rightarrow> True
      | InvalidPreReleaseTimestamp s \<Rightarrow> True
      | _ \<Rightarrow> False)"

text \<open>\<^verbatim>\<open>version.NewVersion\<close> with its error as a value.\<close>

definition newVersionOrError :: "string \<Rightarrow> error + version" where
  "newVersionOrError s =
     (case version_NewVersion s of None \<Rightarrow> Inl (MalformedVersion s) | Some v \<Rightarrow> Inr v)"

section \<open>The collaborators\<close>

record Commit =
  ID :: string
  Message :: string

text \<open>
  The git repository as one snapshot of what its methods return; \<open>None\<close> is a call that
  returns an error. \<^verbatim>\<open>RevList\<close> gives the slice it returns: its error is only logged by
  \<^verbatim>\<open>calcVersion\<close>, and a nil element of the slice is \<open>None\<close>.
\<close>

record repository =
  Tags :: "string list option"
  CommitByRevision :: "string \<Rightarrow> Commit option"
  Branches :: "string list option"
  BranchCommitID :: "string \<Rightarrow> string option"
  BranchCommit :: "string \<Rightarrow> Commit option"
  RevList :: "string \<Rightarrow> Commit option list"

text \<open>
  What else a run depends on: the file system and \<^verbatim>\<open>git.Open\<close> (lines 185 to 198 of
  \<^verbatim>\<open>NewRepo\<close>, \<open>None\<close> when one of the three steps fails), the order in which
  \<^verbatim>\<open>sort.Sort(sort.Reverse(version.Collection(keys)))\<close> leaves the keys (the keys come from
  a map iteration and the sort is not stable, so versions of equal precedence may end in any
  order), and the clock \<^verbatim>\<open>timeNow\<close>.
\<close>

record world =
  gitOpen :: "string \<Rightarrow> repository option"
  sortOutcome :: "(version \<times> Commit) list \<Rightarrow> (version \<times> Commit) list"
  timeNow_Unix :: int
  timeNow_Format :: "string \<Rightarrow> string"

text \<open>
  What the sort guarantees of its outcome: the same entries, and no entry less than a later
  one under \<^verbatim>\<open>LessThan\<close> reversed, that is, no entry \<^verbatim>\<open>LessThan\<close> a later one.
\<close>

definition sortedDescending :: "(version \<times> Commit) list \<Rightarrow> bool" where
  "sortedDescending keys = sorted_wrt (\<lambda>a b. \<not> LessThan (fst a) (fst b)) keys"

text \<open>One such outcome, by insertion, for the examples.\<close>

fun insertDescending :: "version \<times> Commit \<Rightarrow> (version \<times> Commit) list \<Rightarrow> (version \<times> Commit) list" where
  "insertDescending x [] = [x]"
| "insertDescending x (y # ys) =
     (if LessThan (fst x) (fst y) then y # insertDescending x ys else x # y # ys)"

definition insertionSortDescending :: "(version \<times> Commit) list \<Rightarrow> (version \<times> Commit) list" where
  "insertionSortDescending xs = foldr insertDescending xs []"

section \<open>Configuration and its validation\<close>

record GitRepoConfig =
  RepoPath :: string
  Branch :: string
  PreReleaseName :: string
  PreReleaseTimestampLayout :: string
  PreReleaseNumber :: bool
  BuildMetadata :: string
  Scheme :: string
  Prefix :: bool
  StrictMatch :: bool
  BuildNumber :: bool

definition datetimeTsLayout :: string where
  "datetimeTsLayout = ''20060102150405''"

text \<open>\<^verbatim>\<open>semVerPreReleaseName\<close> and \<^verbatim>\<open>semVerBuildMetaRex\<close>: \<^verbatim>\<open>^[0-9A-Za-z-]+$\<close>\<close>

definition semVerPreReleaseName :: "string \<Rightarrow> bool" where
  "semVerPreReleaseName s = (s \<noteq> [] \<and> list_all (\<lambda>c. isAlnum c \<or> c = CHR ''-'') s)"

definition semVerBuildMetaRex :: "string \<Rightarrow> bool" where
  "semVerBuildMetaRex s = (s \<noteq> [] \<and> list_all (\<lambda>c. isAlnum c \<or> c = CHR ''-'') s)"

definition validateSemVerBuildMetadata :: "string \<Rightarrow> bool" where
  "validateSemVerBuildMetadata meta =
     list_all (\<lambda>s. \<not> (s = [] \<or> \<not> semVerBuildMetaRex s)) (strings_Split meta (CHR ''.''))"

definition validateSemVerPreReleaseName :: "string \<Rightarrow> bool" where
  "validateSemVerPreReleaseName meta =
     list_all (\<lambda>s. \<not> (s = [] \<or> strings_HasPrefix s ''0'' \<or> \<not> semVerPreReleaseName s))
       (strings_Split meta (CHR ''.''))"

definition validateConfig :: "GitRepoConfig \<Rightarrow> error + unit" where
  "validateConfig cfg =
     (if BuildMetadata cfg \<noteq> [] \<and> \<not> validateSemVerBuildMetadata (BuildMetadata cfg)
        then Inl (InvalidBuildMetadata (BuildMetadata cfg))
      else if BuildNumber cfg \<and> BuildMetadata cfg \<noteq> []
        then Inl (MetadataWithBuildNumber (BuildMetadata cfg))
      else if PreReleaseName cfg \<noteq> [] \<and> \<not> validateSemVerPreReleaseName (PreReleaseName cfg)
        then Inl (InvalidPreReleaseName (PreReleaseName cfg))
      else if PreReleaseTimestampLayout cfg \<notin> set [[], ''datetime'', ''epoch'']
        then Inl (InvalidPreReleaseTimestamp (PreReleaseTimestampLayout cfg))
      else Inr ())"

section \<open>The repository object\<close>

text \<open>
  \<^verbatim>\<open>GitRepo\<close>. The fields that \<^verbatim>\<open>parseTags\<close> fills (\<open>currentVersion\<close>, \<open>currentTag\<close>,
  \<open>latestTagVersion\<close>, \<open>latestTagCommit\<close>) are nil until it has run and are read only after it
  has returned without error, so the record is built where \<^verbatim>\<open>parseTags\<close> returns.
  \<open>newVersion\<close> and \<open>curPreReleaseVer\<close> may stay nil, which is \<open>None\<close>.
\<close>

record GitRepo =
  repo :: repository
  currentVersion :: version
  currentTag :: Commit
  newVersion :: "version option"
  branch :: string
  branchID :: string
  curPreReleaseVer :: "version option"
  latestTagVersion :: version
  latestTagCommit :: Commit
  preReleaseName :: string
  preReleaseTimestampLayout :: string
  preReleaseNumber :: bool
  buildMetadata :: string
  scheme :: string
  strictMatch :: bool
  prefix :: bool
  buildNumber :: bool

section \<open>The tag index\<close>

text \<open>\<^verbatim>\<open>versionRex = ^v?([\d]+\.?.*)\<close>: the first group, when the tag matches.\<close>

definition versionRex :: "string \<Rightarrow> string option" where
  "versionRex v =
     (let s = (case v of [] \<Rightarrow> v | c # t \<Rightarrow> if c = CHR ''v'' then t else v)
      in case s of
           [] \<Rightarrow> None
         | d # t \<Rightarrow> if isDigit d then Some (takeWhile (\<lambda>x. x \<noteq> newline) s) else None)"

text \<open>
  \<^verbatim>\<open>parseVersion\<close> returns the error of \<^verbatim>\<open>NewVersion\<close> only together with a version;
  \<^verbatim>\<open>NewVersion\<close> returns none with an error, so a tag that does not parse comes back as
  nil without an error.
\<close>

definition parseVersion :: "string \<Rightarrow> error + version option" where
  "parseVersion v =
     (let v' = (case versionRex v of None \<Rightarrow> v | Some m1 \<Rightarrow> m1)
      in Inr (version_NewVersion v'))"

definition maybeVersionFromTag :: "string \<Rightarrow> error + version option" where
  "maybeVersionFromTag tag = (if tag = [] then Inl EmptyTag else parseVersion tag)"

text \<open>
  The first loop of \<^verbatim>\<open>parseTags\<close> (lines 291 to 308). The map \<^verbatim>\<open>versions\<close> has
  pointers for keys, so every tag that parses adds an entry.
\<close>

fun collectVersions :: "repository \<Rightarrow> string list \<Rightarrow> error + (version \<times> Commit) list" where
  "collectVersions rp [] = Inr []"
| "collectVersions rp (tag # tags) =
     (case maybeVersionFromTag tag of
        Inl e \<Rightarrow> collectVersions rp tags
      | Inr None \<Rightarrow> collectVersions rp tags
      | Inr (Some v) \<Rightarrow>
          (case CommitByRevision rp tag of
             None \<Rightarrow> Inl (ReadCommitFailed tag)
           | Some c \<Rightarrow>
               (case collectVersions rp tags of
                  Inl e \<Rightarrow> Inl e
                | Inr versions \<Rightarrow> Inr ((v, c) # versions))))"

text \<open>
  The second loop (lines 318 to 338) from some index on: \<open>cur\<close> is \<^verbatim>\<open>r.curPreReleaseVer\<close>
  so far. It returns at the first key without a pre-release; \<open>None\<close> is the loop running out.
\<close>

fun scanKeys :: "string \<Rightarrow> (version \<times> Commit) list \<Rightarrow> version option
    \<Rightarrow> (version \<times> Commit \<times> version option) option" where
  "scanKeys name [] cur = None"
| "scanKeys name ((v, c) # keys) cur =
     (let cur' = (if name \<noteq> [] \<and> Prerelease v \<noteq> [] \<and> cur = None
                     \<and> strings_HasPrefix (Prerelease v) (name @ ''.'')
                  then Some v else cur)
      in if length (Prerelease v) = 0 then Some (v, c, cur') else scanKeys name keys cur')"

definition parseTags :: "world \<Rightarrow> GitRepoConfig \<Rightarrow> repository \<Rightarrow> error + GitRepo" where
  "parseTags w cfg rp =
     (case Tags rp of
        None \<Rightarrow> Inl FetchTagsFailed
      | Some tags \<Rightarrow>
          (case collectVersions rp tags of
             Inl e \<Rightarrow> Inl e
           | Inr versions \<Rightarrow>
               (case sortOutcome w versions of
                  [] \<Rightarrow> Inl NoStableTags
                | (latestV, latestC) # rest \<Rightarrow>
                    (case scanKeys (PreReleaseName cfg) ((latestV, latestC) # rest) None of
                       None \<Rightarrow> Inl NoStableTags
                     | Some (v, c, cur) \<Rightarrow>
                         Inr \<lparr>repo = rp,
                              currentVersion = v,
                              currentTag = c,
                              newVersion = None,
                              branch = Branch cfg,
                              branchID = [],
                              curPreReleaseVer = cur,
                              latestTagVersion = latestV,
                              latestTagCommit = latestC,
                              preReleaseName = PreReleaseName cfg,
                              preReleaseTimestampLayout = PreReleaseTimestampLayout cfg,
                              preReleaseNumber = PreReleaseNumber cfg,
                              buildMetadata = BuildMetadata cfg,
                              scheme = Scheme cfg,
                              strictMatch = StrictMatch cfg,
                              prefix = Prefix cfg,
                              buildNumber = BuildNumber cfg\<rparr>))))"

section \<open>Bump operations\<close>

text \<open>
  Modelled from the spec: the method \<^verbatim>\<open>bump\<close> of the three bumpers, whose file is not
  among the sources. The spec: ``Applying a magnitude to a version: Major gives
  (major+1,0,0); Minor gives (major,minor+1,0); Patch gives (major,minor,patch+1); all strip
  prerelease/build metadata.''
\<close>

fun bump :: "bumper \<Rightarrow> version \<Rightarrow> version" where
  "bump majorBumper v =
     \<lparr>major = major v + 1, minor = 0, patch = 0, extra = [], pre = [], metadata = []\<rparr>"
| "bump minorBumper v =
     \<lparr>major = major v, minor = minor v + 1, patch = 0, extra = [], pre = [], metadata = []\<rparr>"
| "bump patchBumper v =
     \<lparr>major = major v, minor = minor v, patch = patch v + 1, extra = [], pre = [],
      metadata = []\<rparr>"

text \<open>The order of the magnitudes: Major above Minor above Patch.\<close>

fun magnitude :: "bumper \<Rightarrow> nat" where
  "magnitude patchBumper = 1"
| "magnitude minorBumper = 2"
| "magnitude majorBumper = 3"

section \<open>Version resolution\<close>

text \<open>The scheme switch of \<^verbatim>\<open>parseCommit\<close>: a scheme it does not name leaves \<open>b\<close> nil.\<close>

definition schemeBumper :: "GitRepo \<Rightarrow> string \<Rightarrow> bumper option" where
  "schemeBumper r msg =
     (if scheme r = ''conventional'' then parseConventionalCommit msg (strictMatch r)
      else if scheme r = [] \<or> scheme r = ''autotag'' then parseAutotagCommit msg
      else None)"

definition parseCommit :: "GitRepo \<Rightarrow> Commit \<Rightarrow> error + version option" where
  "parseCommit r commit =
     (let b = schemeBumper r (Message commit)
      in if strictMatch r \<and> b = None then Inl (NoMatchForCommit (ID commit))
         else (case b of
                 Some b' \<Rightarrow> Inr (Some (bump b' (currentVersion r)))
               | None \<Rightarrow> Inr None))"

definition retrieveBranchInfo :: "GitRepo \<Rightarrow> error + GitRepo" where
  "retrieveBranchInfo r =
     (case BranchCommitID (repo r) (branch r) of
        None \<Rightarrow> Inl HeadCommitFailed
      | Some id' \<Rightarrow> Inr (r\<lparr>branchID := id'\<rparr>))"

text \<open>
  The number that the numbering branch of \<^verbatim>\<open>preReleaseVersion\<close> writes (lines 436 to
  448). The increment is an addition of \<^verbatim>\<open>uint64\<close>.
\<close>

definition prereleaseNumber :: "version option \<Rightarrow> error + string" where
  "prereleaseNumber curPrereleaseVer =
     (case curPrereleaseVer of
        None \<Rightarrow> Inr ''1''
      | Some cur \<Rightarrow>
          (let prereleaseParts = strings_Split (Prerelease cur) (CHR ''.'')
           in if length prereleaseParts = 2 then
                (case strconv_ParseUint (prereleaseParts ! 1) of
                   None \<Rightarrow> Inl PrereleaseNumberNotUnsigned
                 | Some currentPrereleaseNumber \<Rightarrow>
                     Inr (strconv_FormatUint (currentPrereleaseNumber + 1)))
              else Inr ''1''))"

definition preReleaseVersion ::
    "world \<Rightarrow> version \<Rightarrow> version option \<Rightarrow> string \<Rightarrow> string \<Rightarrow> bool \<Rightarrow> error + version" where
  "preReleaseVersion w v curPrereleaseVer name tsLayout autoIncrease =
     (if length name = 0 \<and> length tsLayout = 0 then Inr v
      else if 0 < length (Prerelease v) then Inl PreReleaseAlreadySet
      else (let buf = name
            in if 0 < length tsLayout then
                 (let buf1 = (if 0 < length buf then buf @ ''.'' else buf);
                      timestamp = (if tsLayout = ''epoch'' then strconv_FormatInt (timeNow_Unix w)
                                   else timeNow_Format w tsLayout)
                  in newVersionOrError (version_String v @ ''-'' @ buf1 @ timestamp))
               else if 0 < length name \<and> autoIncrease then
                 (let buf1 = (if 0 < length buf then buf @ ''.'' else buf)
                  in case prereleaseNumber curPrereleaseVer of
                       Inl e \<Rightarrow> Inl e
                     | Inr number \<Rightarrow>
                         newVersionOrError (version_String v @ ''-'' @ buf1 @ number))
               else newVersionOrError (version_String v @ ''-'' @ buf)))"

text \<open>
  The loop of \<^verbatim>\<open>calcVersion\<close> over the commits (lines 487 to 501), from the oldest on:
  \<open>nv\<close> is \<^verbatim>\<open>r.newVersion\<close> so far.
\<close>

fun walkCommits :: "GitRepo \<Rightarrow> Commit option list \<Rightarrow> version \<Rightarrow> error + version" where
  "walkCommits r [] nv = Inr nv"
| "walkCommits r (c # cs) nv =
     (case c of
        None \<Rightarrow> Inl NilCommit
      | Some commit \<Rightarrow>
          (case parseCommit r commit of
             Inl nerr \<Rightarrow> Inl nerr
           | Inr None \<Rightarrow> walkCommits r cs nv
           | Inr (Some v) \<Rightarrow> walkCommits r cs (if GreaterThan v nv then v else nv)))"

text \<open>
  Lines 476 to 511: the check of the empty range, the loop over the slice \<open>l\<close> from its last
  element to its first, and the fallback to a patch bump.
\<close>

definition bumpVersion :: "GitRepo \<Rightarrow> Commit option list \<Rightarrow> error + version" where
  "bumpVersion r l =
     (if length l = 0 \<and> strictMatch r then Inl SameCommit
      else (case walkCommits r (rev l) (currentVersion r) of
              Inl e \<Rightarrow> Inl e
            | Inr nv \<Rightarrow>
                if Equal nv (currentVersion r) then
                  (if strictMatch r then Inl NoBumpInMessages
                   else Inr (bump patchBumper (currentVersion r)))
                else Inr nv))"

text \<open>Lines 513 to 518.\<close>

definition appendPreRelease :: "world \<Rightarrow> GitRepo \<Rightarrow> version \<Rightarrow> error + version" where
  "appendPreRelease w r nv =
     (if 0 < length (preReleaseName r) \<or> 0 < length (preReleaseTimestampLayout r) then
        preReleaseVersion w nv (curPreReleaseVer r) (preReleaseName r)
          (preReleaseTimestampLayout r) (preReleaseNumber r)
      else Inr nv)"

text \<open>
  The counter of lines 526 to 537, from the metadata of \<^verbatim>\<open>r.latestTagVersion\<close>. The
  increment is an addition of \<^verbatim>\<open>uint64\<close>.
\<close>

definition buildNumberOf :: "string \<Rightarrow> error + string" where
  "buildNumberOf metadata' =
     (if metadata' = [] then Inr ''1''
      else (case strconv_ParseUint metadata' of
              None \<Rightarrow> Inl BuildNumberNotUnsigned
            | Some currentBuildNumber \<Rightarrow> Inr (strconv_FormatUint (currentBuildNumber + 1))))"

text \<open>Lines 520 to 546.\<close>

definition appendBuildMetadata :: "GitRepo \<Rightarrow> version \<Rightarrow> error + version" where
  "appendBuildMetadata r nv =
     (if buildNumber r then
        (if buildMetadata r \<noteq> [] then Inl CustomMetadataWithBuildNumber
         else (case buildNumberOf (Metadata (latestTagVersion r)) of
                 Inl e \<Rightarrow> Inl e
               | Inr buildMetadata' \<Rightarrow>
                   newVersionOrError (version_String nv @ ''+'' @ buildMetadata')))
      else if buildMetadata r \<noteq> [] then
        newVersionOrError (version_String nv @ ''+'' @ buildMetadata r)
      else Inr nv)"

text \<open>
  \<^verbatim>\<open>calcVersion\<close> from line 476 on, given the slice \<open>l\<close> that \<^verbatim>\<open>RevList\<close> returned:
  the new version, or the error.
\<close>

definition resolveVersion :: "world \<Rightarrow> GitRepo \<Rightarrow> Commit option list \<Rightarrow> error + version" where
  "resolveVersion w r l =
     (case bumpVersion r l of
        Inl e \<Rightarrow> Inl e
      | Inr nv \<Rightarrow>
          (case appendPreRelease w r nv of
             Inl e \<Rightarrow> Inl e
           | Inr nv' \<Rightarrow> appendBuildMetadata r nv'))"

definition calcVersion :: "world \<Rightarrow> GitRepo \<Rightarrow> error + GitRepo" where
  "calcVersion w r =
     (case retrieveBranchInfo (r\<lparr>newVersion := Some (currentVersion r)\<rparr>) of
        Inl e \<Rightarrow> Inl e
      | Inr r1 \<Rightarrow>
          (case BranchCommit (repo r1) (branch r1) of
             None \<Rightarrow> Inl BranchCommitFailed
           | Some startCommit \<Rightarrow>
               (let l = RevList (repo r1) (ID (currentTag r1) @ ''..'' @ ID startCommit)
                in case resolveVersion w r1 l of
                     Inl e \<Rightarrow> Inl e
                   | Inr nv \<Rightarrow> Inr (r1\<lparr>newVersion := Some nv\<rparr>))))"

section \<open>The constructor\<close>

text \<open>
  The search for the branch when none is configured: \<^verbatim>\<open>main\<close> ends it, \<^verbatim>\<open>master\<close> is
  kept while it goes on.
\<close>

fun findBranch :: "string list \<Rightarrow> string \<Rightarrow> string" where
  "findBranch [] found = found"
| "findBranch (b # branches) found =
     (if b = ''main'' then ''main''
      else if b = ''master'' then findBranch branches ''master''
      else findBranch branches found)"

definition NewRepo :: "world \<Rightarrow> GitRepoConfig \<Rightarrow> error + GitRepo" where
  "NewRepo w cfg =
     (case validateConfig cfg of
        Inl e \<Rightarrow> Inl e
      | Inr u \<Rightarrow>
          (let cfg1 = (if PreReleaseTimestampLayout cfg = ''datetime''
                       then cfg\<lparr>PreReleaseTimestampLayout := datetimeTsLayout\<rparr> else cfg)
           in case gitOpen w (RepoPath cfg1) of
                None \<Rightarrow> Inl (OpenRepoFailed (RepoPath cfg1))
              | Some rp \<Rightarrow>
                  (case (if Branch cfg1 = [] then
                           (case Branches rp of
                              None \<Rightarrow> Inl BranchesFailed
                            | Some branches \<Rightarrow>
                                (if findBranch branches [] = [] then Inl NoMainOrMaster
                                 else Inr (cfg1\<lparr>Branch := findBranch branches []\<rparr>)))
                         else Inr cfg1) of
                     Inl e \<Rightarrow> Inl e
                   | Inr cfg2 \<Rightarrow>
                       (case parseTags w cfg2 rp of
                          Inl e \<Rightarrow> Inl e
                        | Inr r \<Rightarrow> calcVersion w r))))"

text \<open>
  \<^verbatim>\<open>LatestVersion\<close>: the resolved version, printed; \<open>None\<close> is the dereference of a nil
  \<open>newVersion\<close>.
\<close>

definition LatestVersion :: "GitRepo \<Rightarrow> string option" where
  "LatestVersion r = map_option version_String (newVersion r)"

text \<open>The outcome of a run as the caller sees it: the error, or the version string.\<close>

definition resolved :: "error + GitRepo \<Rightarrow> error + string option" where
  "resolved res = map_sum id LatestVersion res"

section \<open>What a run reads\<close>

text \<open>The fields that the resolution reads, the auto-increment flag apart.\<close>

definition sameResolutionInput :: "GitRepo \<Rightarrow> GitRepo \<Rightarrow> bool" where
  "sameResolutionInput r r' =
     (currentVersion r' = currentVersion r \<and> scheme r' = scheme r
      \<and> strictMatch r' = strictMatch r \<and> preReleaseName r' = preReleaseName r
      \<and> preReleaseTimestampLayout r' = preReleaseTimestampLayout r
      \<and> curPreReleaseVer r' = curPreReleaseVer r \<and> buildNumber r' = buildNumber r
      \<and> buildMetadata r' = buildMetadata r \<and> latestTagVersion r' = latestTagVersion r)"

text \<open>Two configurations that differ at most in the auto-increment flag.\<close>

definition sameButNumber :: "GitRepoConfig \<Rightarrow> GitRepoConfig \<Rightarrow> bool" where
  "sameButNumber cfg cfg' =
     (RepoPath cfg' = RepoPath cfg \<and> Branch cfg' = Branch cfg
      \<and> PreReleaseName cfg' = PreReleaseName cfg
      \<and> PreReleaseTimestampLayout cfg' = PreReleaseTimestampLayout cfg
      \<and> BuildMetadata cfg' = BuildMetadata cfg \<and> Scheme cfg' = Scheme cfg
      \<and> Prefix cfg' = Prefix cfg \<and> StrictMatch cfg' = StrictMatch cfg
      \<and> BuildNumber cfg' = BuildNumber cfg)"

text \<open>
  For the walk over the commits: the bumper of an entry of the slice (none for a nil entry),
  the highest of a set of bumpers, and the baseline bumped by an optional bumper.
\<close>

definition classified :: "GitRepo \<Rightarrow> Commit option \<Rightarrow> bumper option" where
  "classified r c = (case c of None \<Rightarrow> None | Some commit \<Rightarrow> schemeBumper r (Message commit))"

definition topBumper :: "bumper option set \<Rightarrow> bumper option" where
  "topBumper bs =
     (if Some majorBumper \<in> bs then Some majorBumper
      else if Some minorBumper \<in> bs then Some minorBumper
      else if Some patchBumper \<in> bs then Some patchBumper
      else None)"

definition bumped :: "version \<Rightarrow> bumper option \<Rightarrow> version" where
  "bumped cur b = (case b of None \<Rightarrow> cur | Some b' \<Rightarrow> bump b' cur)"

section \<open>Example inputs\<close>

text \<open>
  A repository on branch \<^verbatim>\<open>main\<close> with the given tags, every tag on the commit \<^verbatim>\<open>c0\<close>,
  and the given commit messages since the baseline, oldest first (\<^verbatim>\<open>RevList\<close> returns the
  newest first).
\<close>

definition exampleRepository :: "string list \<Rightarrow> string list \<Rightarrow> repository" where
  "exampleRepository tags msgs =
     \<lparr>Tags = Some tags,
      CommitByRevision = (\<lambda>t. Some \<lparr>ID = ''c0'', Message = ''initial commit''\<rparr>),
      Branches = Some [''main''],
      BranchCommitID = (\<lambda>b. Some ''head''),
      BranchCommit = (\<lambda>b. Some \<lparr>ID = ''head'', Message = []\<rparr>),
      RevList = (\<lambda>range. map (\<lambda>m. Some \<lparr>ID = ''id-of: '' @ m, Message = m\<rparr>) (rev msgs))\<rparr>"

text \<open>The slice that \<^verbatim>\<open>RevList\<close> returns for commits with the given messages.\<close>

definition exampleCommits :: "string list \<Rightarrow> Commit option list" where
  "exampleCommits msgs = map (\<lambda>m. Some \<lparr>ID = ''id-of: '' @ m, Message = m\<rparr>) msgs"

text \<open>The clock of the repository's tests: 2019-01-01 00:00:00 UTC.\<close>

definition exampleWorld :: "string list \<Rightarrow> string list \<Rightarrow> world" where
  "exampleWorld tags msgs =
     \<lparr>gitOpen = (\<lambda>path. Some (exampleRepository tags msgs)),
      sortOutcome = insertionSortDescending,
      timeNow_Unix = 1546300800,
      timeNow_Format = (\<lambda>layout. ''20190101000000'')\<rparr>"

definition exampleConfig :: GitRepoConfig where
  "exampleConfig =
     \<lparr>RepoPath = ''.'', Branch = ''main'', PreReleaseName = [], PreReleaseTimestampLayout = [],
      PreReleaseNumber = False, BuildMetadata = [], Scheme = [], Prefix = True,
      StrictMatch = False, BuildNumber = False\<rparr>"

text \<open>
  The object that \<^verbatim>\<open>parseTags\<close> leaves for the single tag \<^verbatim>\<open>v1.0.0\<close> under the
  configuration above.
\<close>

definition exampleGitRepo :: GitRepo where
  "exampleGitRepo =
     \<lparr>repo = exampleRepository [''v1.0.0''] [],
      currentVersion = \<lparr>major = 1, minor = 0, patch = 0, extra = [], pre = [], metadata = []\<rparr>,
      currentTag = \<lparr>ID = ''c0'', Message = ''initial commit''\<rparr>,
      newVersion = None,
      branch = ''main'',
      branchID = [],
      curPreReleaseVer = None,
      latestTagVersion = \<lparr>major = 1, minor = 0, patch = 0, extra = [], pre = [], metadata = []\<rparr>,
      latestTagCommit = \<lparr>ID = ''c0'', Message = ''initial commit''\<rparr>,
      preReleaseName = [],
      preReleaseTimestampLayout = [],
      preReleaseNumber = False,
      buildMetadata = [],
      scheme = [],
      strictMatch = False,
      prefix = True,
      buildNumber = False\<rparr>"

section \<open>Evaluation\<close>

text \<open>The defining equations, in groups, for evaluating the definitions on concrete inputs.\<close>

lemmas char_defs =
  isDigit_def isUpper_def isLower_def isAlnum_def isWord_def isSpace_def isVerChar_def
  isPreStart_def newline_def toLower_def

lemmas number_defs =
  decimalValue_def digitVal_def digitChar_def formatNat.simps strconv_ParseUint_def
  strconv_FormatUint_def strconv_FormatInt_def strconv_ParseInt_def

lemmas version_defs =
  version_NewVersion_def parseSegments_def parsePre_def parseMeta_def padSegments_def
  validIdents_def version_String_def Segments_def Prerelease_def Metadata_def
  newVersionOrError_def Compare_def Equal_def GreaterThan_def LessThan_def allZero_def
  comparePrereleases_def comparePart_def

lemmas classifier_defs =
  parseAutotagCommit_def majorRex_def minorRex_def patchRex_def strings_HasPrefix_def
  parseConventionalCommit_def findNamedMatches_def scopeRex_def breakingRex_def subjectRex_def
  matches_type_def conventionalCommitAuthorizedTypes_def

lemmas config_defs =
  validateConfig_def validateSemVerBuildMetadata_def validateSemVerPreReleaseName_def
  semVerPreReleaseName_def semVerBuildMetaRex_def datetimeTsLayout_def

lemmas resolution_defs =
  NewRepo_def parseTags_def maybeVersionFromTag_def parseVersion_def versionRex_def
  calcVersion_def retrieveBranchInfo_def resolveVersion_def bumpVersion_def
  appendPreRelease_def appendBuildMetadata_def buildNumberOf_def preReleaseVersion_def
  prereleaseNumber_def parseCommit_def schemeBumper_def resolved_def LatestVersion_def Let_def

lemmas example_defs =
  exampleRepository_def exampleCommits_def exampleWorld_def exampleConfig_def
  exampleGitRepo_def insertionSortDescending_def

section \<open>Properties of the commit classifier\<close>

lemma isWord_not_isSpace: "isWord c \<Longrightarrow> \<not> isSpace c"
  by (auto simp: isWord_def isSpace_def isAlnum_def isDigit_def isUpper_def isLower_def)

lemma not_isWord_punctuation: "\<not> isWord (CHR ''('')" "\<not> isWord (CHR ''!'')"
  by (simp_all add: isWord_def isAlnum_def isDigit_def isUpper_def isLower_def)

lemma dropWhile_list_all: "list_all P xs \<Longrightarrow> dropWhile P (xs @ ys) = dropWhile P ys"
  by (induction xs) auto

lemma takeWhile_list_all: "list_all P xs \<Longrightarrow> takeWhile P (xs @ ys) = xs @ takeWhile P ys"
  by (induction xs) auto

lemma scopeRex_bang: "scopeRex (CHR ''!'' # rest) = ([], CHR ''!'' # rest)"
  by (simp add: scopeRex_def)

lemma scopeRex_parens:
  assumes "list_all (\<lambda>x. x \<notin> set [CHR ''('', CHR '')'', CHR 0x0D, CHR 0x0A]) body"
  shows "scopeRex (''('' @ body @ '')'' @ rest) = (''('' @ body @ '')'', rest)"
  using assms by (simp add: scopeRex_def Let_def takeWhile_list_all dropWhile_list_all)

text \<open>
  A header of the form: white space, a type, an optional scope in parentheses, an exclamation
  mark. The match takes the type as it stands and records the exclamation mark.
\<close>

lemma findNamedMatches_breaking_header:
  assumes ws: "list_all isSpace ws"
    and ty: "ty \<noteq> []" "list_all isWord ty"
    and sc: "sc = [] \<or> (\<exists>body. sc = ''('' @ body @ '')''
               \<and> list_all (\<lambda>x. x \<notin> set [CHR ''('', CHR '')'', CHR 0x0D, CHR 0x0A]) body)"
  shows "findNamedMatches (ws @ ty @ sc @ ''!'' @ rest) =
           Some \<lparr>type_group = ty, scope_group = sc @ ''!'', breaking_group = ''!'',
                 subject_group = subjectRex rest\<rparr>"
proof -
  obtain t ts where tyc: "ty = t # ts" using ty(1) by (cases ty) auto
  have tw: "isWord t" using ty(2) tyc by simp
  have d1: "dropWhile isSpace (ws @ ty @ sc @ ''!'' @ rest) = ty @ sc @ ''!'' @ rest"
    using ws tw tyc by (simp add: dropWhile_list_all isWord_not_isSpace)
  have nw: "takeWhile isWord (sc @ ''!'' @ rest) = []"
    "dropWhile isWord (sc @ ''!'' @ rest) = sc @ ''!'' @ rest"
    using sc not_isWord_punctuation by auto
  have t1: "takeWhile isWord (ty @ sc @ ''!'' @ rest) = ty"
    using ty(2) nw by (simp add: takeWhile_list_all)
  have d2: "dropWhile isWord (ty @ sc @ ''!'' @ rest) = sc @ ''!'' @ rest"
    using ty(2) nw by (simp add: dropWhile_list_all)
  have s: "scopeRex (sc @ ''!'' @ rest) = (sc, ''!'' @ rest)"
    using sc scopeRex_bang scopeRex_parens[of _ "''!'' @ rest"] by auto
  have b: "breakingRex (''!'' @ rest) = (''!'', rest)"
    by (simp add: breakingRex_def)
  show ?thesis
    unfolding findNamedMatches_def d1 Let_def t1 d2 s using ty(1) b by simp
qed

text \<open>
  C3, as the code has it. Under the Conventional Commits scheme, when strict matching is off
  or the type of the header is in the table of authorized types: a message that contains a
  line, after the first, that begins with \<^verbatim>\<open>BREAKING CHANGE:\<close> classifies as Major; and
  a message whose header is a type, an optional scope in parentheses and an exclamation mark
  (after optional white space) classifies as Major, the type read being the one written.
  With strict matching on and a type outside the table the classifier returns no bumper
  before it looks at either marker.
\<close>

theorem C3_breaking_change_is_major:
  assumes ok: "\<not> strict
             \<or> conventionalCommitAuthorizedTypes (matches_type (findNamedMatches msg)) \<noteq> None"
  shows "(strings_Contains msg (newline # ''BREAKING CHANGE:'')
            \<longrightarrow> parseConventionalCommit msg strict = Some majorBumper)
       \<and> (msg = ws @ ty @ sc @ ''!'' @ rest \<and> list_all isSpace ws
            \<and> ty \<noteq> [] \<and> list_all isWord ty
            \<and> (sc = [] \<or> (\<exists>body. sc = ''('' @ body @ '')''
                  \<and> list_all (\<lambda>x. x \<notin> set [CHR ''('', CHR '')'', CHR 0x0D, CHR 0x0A]) body))
            \<longrightarrow> matches_type (findNamedMatches msg) = ty
              \<and> parseConventionalCommit msg strict = Some majorBumper)"
proof (intro conjI impI)
  assume "strings_Contains msg (newline # ''BREAKING CHANGE:'')"
  then show "parseConventionalCommit msg strict = Some majorBumper"
    using ok by (auto simp: parseConventionalCommit_def Let_def)
next
  assume h: "msg = ws @ ty @ sc @ ''!'' @ rest \<and> list_all isSpace ws
            \<and> ty \<noteq> [] \<and> list_all isWord ty
            \<and> (sc = [] \<or> (\<exists>body. sc = ''('' @ body @ '')''
                  \<and> list_all (\<lambda>x. x \<notin> set [CHR ''('', CHR '')'', CHR 0x0D, CHR 0x0A]) body))"
  then have m: "findNamedMatches msg =
           Some \<lparr>type_group = ty, scope_group = sc @ ''!'', breaking_group = ''!'',
                 subject_group = subjectRex rest\<rparr>"
    using findNamedMatches_breaking_header[of ws ty sc rest] by blast
  then show "matches_type (findNamedMatches msg) = ty" by (simp add: matches_type_def)
  show "parseConventionalCommit msg strict = Some majorBumper"
    using ok m by (auto simp: parseConventionalCommit_def Let_def)
qed

text \<open>
  The theorem at two messages: an authorized type with scope and exclamation mark under strict
  matching, and a type outside the table with the footer, strict matching off.
\<close>

theorem C3_breaking_change_is_major_witness:
  "parseConventionalCommit ''fix(api)!: drop v1'' True = Some majorBumper
   \<and> parseConventionalCommit (''foo: x'' @ [newline] @ ''BREAKING CHANGE: y'') False
       = Some majorBumper"
proof -
  have a: "\<not> True \<or> conventionalCommitAuthorizedTypes
                      (matches_type (findNamedMatches ''fix(api)!: drop v1'')) \<noteq> None"
    by code_simp
  have b: "\<not> False \<or> conventionalCommitAuthorizedTypes
             (matches_type (findNamedMatches (''foo: x'' @ [newline] @ ''BREAKING CHANGE: y'')))
               \<noteq> None"
    by simp
  have c: "strings_Contains (''foo: x'' @ [newline] @ ''BREAKING CHANGE: y'')
             (newline # ''BREAKING CHANGE:'')"
    by code_simp
  have d: "''fix(api)!: drop v1'' = [] @ ''fix'' @ ''(api)'' @ ''!'' @ '': drop v1''
            \<and> list_all isSpace [] \<and> ''fix'' \<noteq> [] \<and> list_all isWord ''fix''
            \<and> (''(api)'' = [] \<or> (\<exists>body. ''(api)'' = ''('' @ body @ '')''
                  \<and> list_all (\<lambda>x. x \<notin> set [CHR ''('', CHR '')'', CHR 0x0D, CHR 0x0A]) body))"
    by (simp add: isWord_def isAlnum_def isLower_def)
  show ?thesis
    using C3_breaking_change_is_major[OF a, of "[]" "''fix''" "''(api)''" "'': drop v1''"] d
      C3_breaking_change_is_major[OF b, of "[]" "[]" "[]" "[]"] c
    by blast
qed

text \<open>
  C3 as the spec states it fails: under strict matching the message \<^verbatim>\<open>foo!: thing 1\<close>,
  whose header has the exclamation mark before the colon, gets no bumper at all, since its
  type is not authorized.
\<close>

theorem C3_strict_counterexample:
  "parseConventionalCommit ''foo!: thing 1'' True = None"
  by code_simp

text \<open>
  A walk that ends without error has met no nil commit and no commit that fails to parse.
\<close>

lemma walkCommits_Inr_all:
  "walkCommits r cs nv = Inr v \<Longrightarrow> c \<in> set cs
     \<Longrightarrow> \<exists>commit x. c = Some commit \<and> parseCommit r commit = Inr x"
proof (induction cs arbitrary: nv)
  case Nil
  then show ?case by simp
next
  case (Cons a cs)
  then show ?case
    by (auto split: option.splits sum.splits)
qed

lemma resolveVersion_Inr_walk:
  "resolveVersion w r l = Inr v \<Longrightarrow> \<exists>nv. walkCommits r (rev l) (currentVersion r) = Inr nv"
  by (auto simp: resolveVersion_def bumpVersion_def split: sum.splits if_splits)

text \<open>
  C8. Under the Conventional Commits scheme with strict matching, a commit whose header type
  is not in the table of authorized types gets no bumper, whatever else its message holds
  (an exclamation mark before the colon, a \<^verbatim>\<open>BREAKING CHANGE:\<close> footer): the check of the
  type comes first. \<^verbatim>\<open>parseCommit\<close> then returns the error that names the commit, a
  range of that one commit fails with that error, and every range that holds the commit
  fails.
\<close>

theorem C8_strict_rejects_unauthorized_type:
  assumes conv: "scheme r = ''conventional''"
    and strict: "strictMatch r"
    and unauth: "conventionalCommitAuthorizedTypes
                   (matches_type (findNamedMatches (Message c))) = None"
  shows "parseConventionalCommit (Message c) True = None
       \<and> parseCommit r c = Inl (NoMatchForCommit (ID c))
       \<and> resolveVersion w r [Some c] = Inl (NoMatchForCommit (ID c))
       \<and> (Some c \<in> set l \<longrightarrow> (\<exists>e. resolveVersion w r l = Inl e))"
proof -
  have p: "parseConventionalCommit (Message c) True = None"
    using unauth by (simp add: parseConventionalCommit_def Let_def)
  have q: "parseCommit r c = Inl (NoMatchForCommit (ID c))"
    using p conv strict by (simp add: parseCommit_def schemeBumper_def Let_def)
  have s: "resolveVersion w r [Some c] = Inl (NoMatchForCommit (ID c))"
    using q strict by (simp add: resolveVersion_def bumpVersion_def)
  have t: "\<exists>e. resolveVersion w r l = Inl e" if "Some c \<in> set l"
  proof (cases "resolveVersion w r l")
    case (Inl e)
    then show ?thesis by blast
  next
    case (Inr v)
    then obtain nv where "walkCommits r (rev l) (currentVersion r) = Inr nv"
      using resolveVersion_Inr_walk by blast
    moreover have "Some c \<in> set (rev l)" using that by simp
    ultimately obtain x where "parseCommit r c = Inr x"
      using walkCommits_Inr_all by blast
    then show ?thesis using q by simp
  qed
  show ?thesis using p q s t by blast
qed

text \<open>
  The theorem at the two messages of the repository's tests: an unauthorized type with the
  exclamation mark, and one with the footer.
\<close>

theorem C8_strict_rejects_unauthorized_type_witness:
  "parseCommit (exampleGitRepo\<lparr>scheme := ''conventional'', strictMatch := True\<rparr>)
     \<lparr>ID = ''abc'', Message = ''foo!: thing 1''\<rparr> = Inl (NoMatchForCommit ''abc'')
   \<and> parseCommit (exampleGitRepo\<lparr>scheme := ''conventional'', strictMatch := True\<rparr>)
       \<lparr>ID = ''def'', Message = ''foo: allow'' @ [newline, newline] @ ''BREAKING CHANGE: non''\<rparr>
       = Inl (NoMatchForCommit ''def'')"
proof -
  have a: "scheme (exampleGitRepo\<lparr>scheme := ''conventional'', strictMatch := True\<rparr>)
             = ''conventional''"
    by simp
  have b: "strictMatch (exampleGitRepo\<lparr>scheme := ''conventional'', strictMatch := True\<rparr>)"
    by simp
  have c: "conventionalCommitAuthorizedTypes
             (matches_type (findNamedMatches
                (Message \<lparr>ID = ''abc'', Message = ''foo!: thing 1''\<rparr>))) = None"
    by (simp add: classifier_defs char_defs)
  have d: "conventionalCommitAuthorizedTypes
             (matches_type (findNamedMatches
                (Message \<lparr>ID = ''def'',
                   Message = ''foo: allow'' @ [newline, newline] @ ''BREAKING CHANGE: non''\<rparr>)))
             = None"
    by (simp add: classifier_defs char_defs)
  show ?thesis
    using C8_strict_rejects_unauthorized_type[OF a b c]
      C8_strict_rejects_unauthorized_type[OF a b d]
    by simp
qed

text \<open>
  C4 at a message whose header holds none of the tokens and whose body mentions
  \<^verbatim>\<open>#major\<close>: the code matches the whole message, so the classification is Major, where
  the header alone gives none; the repository with the baseline \<^verbatim>\<open>v1.0.0\<close> and this one
  commit resolves to \<^verbatim>\<open>2.0.0\<close>.
\<close>

theorem C4_token_outside_header:
  "parseAutotagCommit (''update readme'' @ [newline, newline] @ ''follow-up to #major cleanup'')
     = Some majorBumper
   \<and> parseAutotagCommit (takeWhile (\<lambda>c. c \<noteq> newline)
        (''update readme'' @ [newline, newline] @ ''follow-up to #major cleanup'')) = None
   \<and> resolved (NewRepo
        (exampleWorld [''v1.0.0'']
           [''update readme'' @ [newline, newline] @ ''follow-up to #major cleanup''])
        exampleConfig) = Inr (Some ''2.0.0'')"
  by (simp add: char_defs number_defs version_defs classifier_defs config_defs resolution_defs
      example_defs)

section \<open>Validation of the pre-release name\<close>

text \<open>
  C9. A pre-release name with a dot-separated identifier whose first character is \<^verbatim>\<open>0\<close>
  (numeric or not, \<^verbatim>\<open>0abc\<close> as well as \<^verbatim>\<open>024\<close>) does not validate; \<^verbatim>\<open>validateConfig\<close>
  returns a configuration error and \<^verbatim>\<open>NewRepo\<close> returns that error whatever the state of
  the collaborators, which it has not consulted. When the build metadata settings pass their
  own checks, the error is the one of the pre-release name.
\<close>

theorem C9_leading_zero_identifier_rejected:
  assumes ident: "CHR ''0'' # t \<in> set (strings_Split (PreReleaseName cfg) (CHR ''.''))"
  shows "\<not> validateSemVerPreReleaseName (PreReleaseName cfg)
       \<and> (\<exists>e. isConfigError e \<and> validateConfig cfg = Inl e \<and> (\<forall>w. NewRepo w cfg = Inl e))
       \<and> ((BuildMetadata cfg = []
             \<or> (validateSemVerBuildMetadata (BuildMetadata cfg) \<and> \<not> BuildNumber cfg))
            \<longrightarrow> (\<forall>w. NewRepo w cfg = Inl (InvalidPreReleaseName (PreReleaseName cfg))))"
proof -
  have ne: "PreReleaseName cfg \<noteq> []"
    using ident by (cases "PreReleaseName cfg") auto
  have inv: "\<not> validateSemVerPreReleaseName (PreReleaseName cfg)"
  proof -
    have "strings_HasPrefix (CHR ''0'' # t) ''0''" by (simp add: strings_HasPrefix_def)
    then show ?thesis
      using ident unfolding validateSemVerPreReleaseName_def list_all_iff by blast
  qed
  have "\<exists>e. validateConfig cfg = Inl e \<and> isConfigError e"
    using ne inv by (simp add: validateConfig_def isConfigError_def)
  then obtain e where e: "validateConfig cfg = Inl e" "isConfigError e"
    by blast
  have n: "NewRepo w cfg = Inl e" for w
    using e by (simp add: NewRepo_def)
  have v: "validateConfig cfg = Inl (InvalidPreReleaseName (PreReleaseName cfg))"
    if "BuildMetadata cfg = []
        \<or> (validateSemVerBuildMetadata (BuildMetadata cfg) \<and> \<not> BuildNumber cfg)"
    using that ne inv by (auto simp: validateConfig_def)
  show ?thesis using inv e n v by (auto simp: NewRepo_def)
qed

text \<open>The theorem at the name \<^verbatim>\<open>0abc\<close>.\<close>

theorem C9_leading_zero_identifier_rejected_witness:
  "\<not> validateSemVerPreReleaseName ''0abc''
   \<and> NewRepo (exampleWorld [''v1.0.0''] []) (exampleConfig\<lparr>PreReleaseName := ''0abc''\<rparr>)
       = Inl (InvalidPreReleaseName ''0abc'')"
proof -
  have a: "CHR ''0'' # ''abc''
             \<in> set (strings_Split
                      (PreReleaseName (exampleConfig\<lparr>PreReleaseName := ''0abc''\<rparr>)) (CHR ''.''))"
    by simp
  have b: "BuildMetadata (exampleConfig\<lparr>PreReleaseName := ''0abc''\<rparr>) = []"
    by (simp add: exampleConfig_def)
  show ?thesis
    using C9_leading_zero_identifier_rejected[OF a] b by simp
qed

section \<open>The auto-increment flag without a pre-release name\<close>

lemma parseCommit_sameInput:
  "sameResolutionInput r r' \<Longrightarrow> parseCommit r' c = parseCommit r c"
  by (auto simp: sameResolutionInput_def parseCommit_def schemeBumper_def Let_def split: option.splits)

lemma walkCommits_sameInput:
  "sameResolutionInput r r' \<Longrightarrow> walkCommits r' cs nv = walkCommits r cs nv"
  by (induction cs arbitrary: nv)
     (auto simp: parseCommit_sameInput split: option.splits sum.splits)

lemma bumpVersion_sameInput:
  "sameResolutionInput r r' \<Longrightarrow> bumpVersion r' l = bumpVersion r l"
  by (auto simp: bumpVersion_def walkCommits_sameInput split: sum.splits)
     (auto simp: sameResolutionInput_def)

lemma resolveVersion_sameInput:
  assumes "sameResolutionInput r r'"
    and "preReleaseName r = []" and "preReleaseTimestampLayout r = []"
  shows "resolveVersion w r' l = resolveVersion w r l"
proof -
  have a: "appendPreRelease w r' nv = Inr nv" "appendPreRelease w r nv = Inr nv" for nv
    using assms by (simp_all add: appendPreRelease_def sameResolutionInput_def)
  have b: "appendBuildMetadata r' nv = appendBuildMetadata r nv" for nv
    using assms(1) by (simp add: appendBuildMetadata_def sameResolutionInput_def)
  show ?thesis
    by (auto simp: resolveVersion_def bumpVersion_sameInput[OF assms(1)] a b split: sum.splits)
qed

lemma calcVersion_preReleaseNumber:
  assumes "preReleaseName r = []" "preReleaseTimestampLayout r = []"
  shows "map_sum id newVersion (calcVersion w (r\<lparr>preReleaseNumber := b\<rparr>))
           = map_sum id newVersion (calcVersion w r)"
proof -
  have "resolveVersion w (r\<lparr>preReleaseNumber := b, newVersion := Some (currentVersion r), branchID := i\<rparr>) l
      = resolveVersion w (r\<lparr>newVersion := Some (currentVersion r), branchID := i\<rparr>) l" for i l
    by (rule resolveVersion_sameInput) (simp_all add: sameResolutionInput_def assms)
  then show ?thesis
    by (auto simp: calcVersion_def retrieveBranchInfo_def Let_def split: option.splits sum.splits)
qed

lemma parseTags_sameButNumber:
  "sameButNumber cfg cfg' \<Longrightarrow>
     parseTags w cfg' rp
       = map_sum id (\<lambda>r. r\<lparr>preReleaseNumber := PreReleaseNumber cfg'\<rparr>) (parseTags w cfg rp)"
  by (simp add: parseTags_def sameButNumber_def
      split: option.splits sum.splits list.splits prod.splits)

lemma parseTags_config:
  "parseTags w cfg rp = Inr r \<Longrightarrow>
     preReleaseName r = PreReleaseName cfg
   \<and> preReleaseTimestampLayout r = PreReleaseTimestampLayout cfg"
  by (auto simp: parseTags_def split: option.splits sum.splits list.splits prod.splits)

lemma resolved_newVersion:
  "map_sum id newVersion res = map_sum id newVersion res' \<Longrightarrow> resolved res = resolved res'"
  by (cases res; cases res') (simp_all add: resolved_def LatestVersion_def)

lemma tagsThenVersion_sameButNumber:
  assumes same: "sameButNumber cfg cfg'"
    and "PreReleaseName cfg = []" "PreReleaseTimestampLayout cfg = []"
  shows "resolved (case parseTags w cfg' rp of Inl e \<Rightarrow> Inl e | Inr r \<Rightarrow> calcVersion w r)
       = resolved (case parseTags w cfg rp of Inl e \<Rightarrow> Inl e | Inr r \<Rightarrow> calcVersion w r)"
proof (cases "parseTags w cfg rp")
  case (Inl e)
  then show ?thesis by (simp add: parseTags_sameButNumber[OF same])
next
  case (Inr r)
  then have "preReleaseName r = []" "preReleaseTimestampLayout r = []"
    using parseTags_config assms by auto
  then have "resolved (calcVersion w (r\<lparr>preReleaseNumber := PreReleaseNumber cfg'\<rparr>))
             = resolved (calcVersion w r)"
    by (intro resolved_newVersion calcVersion_preReleaseNumber)
  then show ?thesis
    using Inr by (simp add: parseTags_sameButNumber[OF same])
qed

lemma NewRepo_sameButNumber:
  assumes same: "sameButNumber cfg cfg'"
    and n: "PreReleaseName cfg = []" and l: "PreReleaseTimestampLayout cfg = []"
  shows "resolved (NewRepo w cfg') = resolved (NewRepo w cfg)"
proof -
  have v: "validateConfig cfg' = validateConfig cfg"
    using same by (simp add: validateConfig_def sameButNumber_def)
  have l': "PreReleaseTimestampLayout cfg' = []" and p: "RepoPath cfg' = RepoPath cfg"
    and br: "Branch cfg' = Branch cfg"
    using same l by (simp_all add: sameButNumber_def)
  show ?thesis
  proof (cases "validateConfig cfg")
    case (Inl e)
    then show ?thesis by (simp add: NewRepo_def v)
  next
    case (Inr u)
    show ?thesis
    proof (cases "gitOpen w (RepoPath cfg)")
      case None
      then show ?thesis using Inr by (simp add: NewRepo_def v l l' p)
    next
      case (Some rp)
      show ?thesis
      proof (cases "Branch cfg = []")
        case False
        then show ?thesis
          using Inr Some tagsThenVersion_sameButNumber[OF same n l, of w rp]
          by (simp add: NewRepo_def v l l' p br)
      next
        case True
        show ?thesis
        proof (cases "Branches rp")
          case None
          then show ?thesis using Inr Some True by (simp add: NewRepo_def v l l' p br)
        next
          case (Some branches)
          have s: "sameButNumber (cfg\<lparr>Branch := findBranch branches []\<rparr>)
                     (cfg'\<lparr>Branch := findBranch branches []\<rparr>)"
            using same by (simp add: sameButNumber_def)
          show ?thesis
            using Inr \<open>gitOpen w (RepoPath cfg) = Some rp\<close> True Some
              tagsThenVersion_sameButNumber[OF s, of w rp] n l
            by (simp add: NewRepo_def v l l' p br)
        qed
      qed
    qed
  qed
qed

text \<open>
  C10. When the pre-release name and the timestamp layout are both empty, the flag
  \<^verbatim>\<open>preReleaseNumber\<close> changes nothing in the outcome of a run: for every state of the
  collaborators and every other setting, the run with the flag set ends in the same error or
  the same version as the run with the flag cleared. \<^verbatim>\<open>calcVersion\<close> calls the pre-release
  composition only when a name or a layout is set, and the composition itself ignores the
  flag whenever the name is empty.
\<close>

theorem C10_preReleaseNumber_without_name_or_layout:
  assumes "PreReleaseName cfg = []" and "PreReleaseTimestampLayout cfg = []"
  shows "resolved (NewRepo w (cfg\<lparr>PreReleaseNumber := True\<rparr>))
           = resolved (NewRepo w (cfg\<lparr>PreReleaseNumber := False\<rparr>))
       \<and> preReleaseVersion w v cur [] tsLayout True = preReleaseVersion w v cur [] tsLayout False"
proof -
  have "resolved (NewRepo w (cfg\<lparr>PreReleaseNumber := True\<rparr>)) = resolved (NewRepo w cfg)"
    using assms by (intro NewRepo_sameButNumber) (simp_all add: sameButNumber_def)
  moreover have "resolved (NewRepo w (cfg\<lparr>PreReleaseNumber := False\<rparr>)) = resolved (NewRepo w cfg)"
    using assms by (intro NewRepo_sameButNumber) (simp_all add: sameButNumber_def)
  moreover have "preReleaseVersion w v cur [] tsLayout True = preReleaseVersion w v cur [] tsLayout False"
    by (simp add: preReleaseVersion_def)
  ultimately show ?thesis by simp
qed

text \<open>
  The theorem at a repository with the tags \<^verbatim>\<open>v1.0.1\<close> and \<^verbatim>\<open>v1.0.2-dev.1\<close> and one
  commit \<^verbatim>\<open>#minor change\<close>: both runs resolve to \<^verbatim>\<open>1.1.0\<close>.
\<close>

theorem C10_preReleaseNumber_without_name_or_layout_witness:
  "resolved (NewRepo (exampleWorld [''v1.0.1'', ''v1.0.2-dev.1''] [''#minor change''])
       (exampleConfig\<lparr>PreReleaseNumber := True\<rparr>)) = Inr (Some ''1.1.0'')
   \<and> resolved (NewRepo (exampleWorld [''v1.0.1'', ''v1.0.2-dev.1''] [''#minor change''])
       (exampleConfig\<lparr>PreReleaseNumber := False\<rparr>)) = Inr (Some ''1.1.0'')"
proof -
  have a: "PreReleaseName exampleConfig = []" "PreReleaseTimestampLayout exampleConfig = []"
    by (simp_all add: exampleConfig_def)
  have b: "resolved (NewRepo (exampleWorld [''v1.0.1'', ''v1.0.2-dev.1''] [''#minor change''])
       (exampleConfig\<lparr>PreReleaseNumber := False\<rparr>)) = Inr (Some ''1.1.0'')"
    by (simp add: char_defs number_defs version_defs classifier_defs config_defs resolution_defs
      example_defs)
  have c: "resolved (NewRepo (exampleWorld [''v1.0.1'', ''v1.0.2-dev.1''] [''#minor change''])
       (exampleConfig\<lparr>PreReleaseNumber := True\<rparr>))
     = resolved (NewRepo (exampleWorld [''v1.0.1'', ''v1.0.2-dev.1''] [''#minor change''])
       (exampleConfig\<lparr>PreReleaseNumber := False\<rparr>))"
    using C10_preReleaseNumber_without_name_or_layout[OF a] by (rule conjunct1)
  show ?thesis
    using trans[OF c b] b by (rule conjI)
qed

section \<open>Pre-release composition\<close>

lemma strconv_ParseUint_Some:
  "strconv_ParseUint s = Some n \<Longrightarrow>
     s \<noteq> [] \<and> list_all isDigit s \<and> decimalValue s < 2 ^ 64 \<and> unat n = decimalValue s"
  by (auto simp: strconv_ParseUint_def unat_of_nat split: if_splits)

lemma strconv_ParseUint_not_numeric:
  "s = [] \<or> \<not> list_all isDigit s \<Longrightarrow> strconv_ParseUint s = None"
  by (auto simp: strconv_ParseUint_def)

lemma uint64_increment:
  fixes n :: "64 word"
  assumes "unat n < 2 ^ 64 - 1"
  shows "unat (n + 1) = unat n + 1"
proof -
  have "unat n + unat (1 :: 64 word) < 2 ^ LENGTH(64)"
    using assms by simp
  then have "unat (n + 1) = unat n + unat (1 :: 64 word)"
    by (simp only: unat_add_lem)
  then show ?thesis by simp
qed

text \<open>
  C7. Pre-release composition with a name, no timestamp layout and auto-increment, on a
  version that carries no pre-release (as every version that \<^verbatim>\<open>calcVersion\<close> hands over
  does; one that carries a pre-release is refused before anything is composed). The string
  handed to \<^verbatim>\<open>version.NewVersion\<close> is the version, a hyphen, the name, a dot and a number:
  the number is 1 when there is no matching pre-release or when its pre-release string does
  not split into exactly two parts at the dots; when it splits into two and the second part
  parses as an unsigned integer, the number is that value plus 1, the value being the decimal
  value of the part and the sum an addition of \<^verbatim>\<open>uint64\<close>, which is the sum of the
  integers below \<open>2^64 - 1\<close>; when the second part is empty or holds a byte that is not a
  digit, the composition fails.
\<close>

theorem C7_prerelease_auto_increment:
  assumes name: "name \<noteq> []" and stable: "Prerelease v = []"
  shows "(cur = None \<or> (\<exists>c. cur = Some c \<and> length (strings_Split (Prerelease c) (CHR ''.'')) \<noteq> 2)
            \<longrightarrow> preReleaseVersion w v cur name [] True
                  = newVersionOrError (version_String v @ ''-'' @ name @ ''.'' @ ''1''))
       \<and> (cur = Some c \<and> strings_Split (Prerelease c) (CHR ''.'') = [p0, p1]
            \<and> strconv_ParseUint p1 = Some n
            \<longrightarrow> preReleaseVersion w v cur name [] True
                  = newVersionOrError
                      (version_String v @ ''-'' @ name @ ''.'' @ strconv_FormatUint (n + 1))
                \<and> unat n = decimalValue p1
                \<and> (decimalValue p1 < 2 ^ 64 - 1 \<longrightarrow> unat (n + 1) = decimalValue p1 + 1))
       \<and> (cur = Some c \<and> strings_Split (Prerelease c) (CHR ''.'') = [p0, p1]
            \<and> (p1 = [] \<or> \<not> list_all isDigit p1)
            \<longrightarrow> preReleaseVersion w v cur name [] True = Inl PrereleaseNumberNotUnsigned)"
proof (intro conjI impI)
  assume "cur = None \<or> (\<exists>c. cur = Some c \<and> length (strings_Split (Prerelease c) (CHR ''.'')) \<noteq> 2)"
  then have "prereleaseNumber cur = Inr ''1''"
    by (auto simp: prereleaseNumber_def Let_def)
  then show "preReleaseVersion w v cur name [] True
               = newVersionOrError (version_String v @ ''-'' @ name @ ''.'' @ ''1'')"
    using name stable by (simp add: preReleaseVersion_def Let_def)
next
  assume h: "cur = Some c \<and> strings_Split (Prerelease c) (CHR ''.'') = [p0, p1]
            \<and> strconv_ParseUint p1 = Some n"
  then have "prereleaseNumber cur = Inr (strconv_FormatUint (n + 1))"
    by (simp add: prereleaseNumber_def Let_def)
  then show "preReleaseVersion w v cur name [] True
               = newVersionOrError
                   (version_String v @ ''-'' @ name @ ''.'' @ strconv_FormatUint (n + 1))"
    using name stable by (simp add: preReleaseVersion_def Let_def)
  have "strconv_ParseUint p1 = Some n" using h by simp
  then show u: "unat n = decimalValue p1"
    by (simp add: strconv_ParseUint_Some)
  show "unat (n + 1) = decimalValue p1 + 1" if "decimalValue p1 < 2 ^ 64 - 1"
    using that u uint64_increment[of n] by simp
next
  assume h: "cur = Some c \<and> strings_Split (Prerelease c) (CHR ''.'') = [p0, p1]
            \<and> (p1 = [] \<or> \<not> list_all isDigit p1)"
  then have "p1 = [] \<or> \<not> list_all isDigit p1" by simp
  then have "strconv_ParseUint p1 = None"
    by (rule strconv_ParseUint_not_numeric)
  then have "prereleaseNumber cur = Inl PrereleaseNumberNotUnsigned"
    using h by (simp add: prereleaseNumber_def Let_def)
  then show "preReleaseVersion w v cur name [] True = Inl PrereleaseNumberNotUnsigned"
    using name stable by (simp add: preReleaseVersion_def Let_def)
qed

text \<open>
  The theorem at the name \<^verbatim>\<open>dev\<close> and the version \<^verbatim>\<open>1.0.1\<close>: with no matching
  pre-release, with the matching pre-release \<^verbatim>\<open>1.0.1-dev.7\<close>, and with \<^verbatim>\<open>1.0.1-dev.x\<close>.
\<close>

theorem C7_prerelease_auto_increment_witness:
  "preReleaseVersion (exampleWorld [] []) (bump patchBumper (currentVersion exampleGitRepo)) None ''dev'' [] True
     = Inr \<lparr>major = 1, minor = 0, patch = 1, extra = [], pre = ''dev.1'', metadata = []\<rparr>
   \<and> preReleaseVersion (exampleWorld [] []) (bump patchBumper (currentVersion exampleGitRepo))
        (Some \<lparr>major = 1, minor = 0, patch = 1, extra = [], pre = ''dev.7'', metadata = []\<rparr>) ''dev'' [] True
     = Inr \<lparr>major = 1, minor = 0, patch = 1, extra = [], pre = ''dev.8'', metadata = []\<rparr>
   \<and> preReleaseVersion (exampleWorld [] []) (bump patchBumper (currentVersion exampleGitRepo))
        (Some \<lparr>major = 1, minor = 0, patch = 1, extra = [], pre = ''dev.x'', metadata = []\<rparr>) ''dev'' [] True
     = Inl PrereleaseNumberNotUnsigned"
proof -
  let ?v = "bump patchBumper (currentVersion exampleGitRepo)"
  let ?c7 = "\<lparr>major = 1, minor = 0, patch = 1, extra = [], pre = ''dev.7'', metadata = []\<rparr>"
  let ?cx = "\<lparr>major = 1, minor = 0, patch = 1, extra = [], pre = ''dev.x'', metadata = []\<rparr>"
  have n: "''dev'' \<noteq> []" by simp
  have s: "Prerelease ?v = []" by (simp add: Prerelease_def exampleGitRepo_def)
  have a: "(None :: version option) = None \<or> (\<exists>c. None = Some c \<and> length (strings_Split (Prerelease c) (CHR ''.'')) \<noteq> 2)"
    by simp
  have b: "Some ?c7 = Some ?c7 \<and> strings_Split (Prerelease ?c7) (CHR ''.'') = [''dev'', ''7'']
            \<and> strconv_ParseUint ''7'' = Some 7"
    by (simp add: Prerelease_def number_defs char_defs)
  have c: "Some ?cx = Some ?cx \<and> strings_Split (Prerelease ?cx) (CHR ''.'') = [''dev'', ''x'']
            \<and> (''x'' = [] \<or> \<not> list_all isDigit ''x'')"
    by (simp add: Prerelease_def char_defs)
  have e1: "newVersionOrError (version_String ?v @ ''-'' @ ''dev'' @ ''.'' @ ''1'')
              = Inr \<lparr>major = 1, minor = 0, patch = 1, extra = [], pre = ''dev.1'', metadata = []\<rparr>"
    by (simp add: exampleGitRepo_def version_defs number_defs char_defs)
  have e2: "newVersionOrError (version_String ?v @ ''-'' @ ''dev'' @ ''.'' @ strconv_FormatUint (7 + 1))
              = Inr \<lparr>major = 1, minor = 0, patch = 1, extra = [], pre = ''dev.8'', metadata = []\<rparr>"
    by (simp add: exampleGitRepo_def version_defs number_defs char_defs)
  note r1 = C7_prerelease_auto_increment[OF n s, where cur = None and w = "exampleWorld [] []",
      THEN conjunct1, THEN mp, OF a]
  note r2 = C7_prerelease_auto_increment[OF n s, where cur = "Some ?c7" and c = ?c7
      and ?p0.0 = "''dev''" and ?p1.0 = "''7''" and n = 7 and w = "exampleWorld [] []",
      THEN conjunct2, THEN conjunct1, THEN mp, OF b, THEN conjunct1]
  note r3 = C7_prerelease_auto_increment[OF n s, where cur = "Some ?cx" and c = ?cx
      and ?p0.0 = "''dev''" and ?p1.0 = "''x''" and w = "exampleWorld [] []",
      THEN conjunct2, THEN conjunct2, THEN mp, OF c]
  show ?thesis
    using r1[unfolded e1] r2[unfolded e2] r3 by (intro conjI)
qed

section \<open>Bump selection\<close>


lemma Compare_bump_baseline: "Compare (bump b v) v = 1"
  by (cases b) (simp_all add: Compare_def Segments_def)

lemma Compare_bump_bump:
  "Compare (bump b v) (bump b' v)
     = (if magnitude b = magnitude b' then 0 else if magnitude b < magnitude b' then - 1 else 1)"
  by (cases b; cases b') (simp_all add: Compare_def Segments_def Prerelease_def)

lemma GreaterThan_bump_bumped:
  "GreaterThan (bump b cur) (bumped cur acc)
     = (case acc of None \<Rightarrow> True | Some a \<Rightarrow> magnitude a < magnitude b)"
  by (cases acc) (auto simp: GreaterThan_def bumped_def Compare_bump_baseline Compare_bump_bump)

lemma topBumper_step:
  "topBumper (insert (if (case acc of None \<Rightarrow> True | Some a \<Rightarrow> magnitude a < magnitude b)
                      then Some b else acc) S)
     = topBumper (insert acc (insert (Some b) S))"
proof (cases acc)
  case None
  then show ?thesis by (cases b) (auto simp: topBumper_def)
next
  case (Some a)
  then show ?thesis by (cases a; cases b) (auto simp: topBumper_def)
qed

lemma topBumper_single: "topBumper {acc} = acc"
proof (cases acc)
  case None
  then show ?thesis by (simp add: topBumper_def)
next
  case (Some a)
  then show ?thesis by (cases a) (simp_all add: topBumper_def)
qed

lemma topBumper_None: "topBumper (insert acc (insert None S)) = topBumper (insert acc S)"
  by (auto simp: topBumper_def)

lemma walkCommits_top:
  "walkCommits r cs (bumped (currentVersion r) acc) = Inr v
     \<Longrightarrow> v = bumped (currentVersion r) (topBumper (insert acc (classified r ` set cs)))"
proof (induction cs arbitrary: acc)
  case Nil
  then show ?case by (simp add: topBumper_single)
next
  case (Cons c cs)
  then obtain commit where c: "c = Some commit"
    by (cases c) auto
  show ?case
  proof (cases "schemeBumper r (Message commit)")
    case None
    then have p: "parseCommit r commit = Inr None"
      using Cons.prems c by (auto simp: parseCommit_def Let_def split: if_splits)
    then have "walkCommits r cs (bumped (currentVersion r) acc) = Inr v"
      using Cons.prems c by simp
    then have "v = bumped (currentVersion r) (topBumper (insert acc (classified r ` set cs)))"
      by (rule Cons.IH)
    then show ?thesis
      using None c by (simp add: classified_def topBumper_None)
  next
    case (Some b)
    then have p: "parseCommit r commit = Inr (Some (bump b (currentVersion r)))"
      by (auto simp: parseCommit_def Let_def)
    let ?acc = "if (case acc of None \<Rightarrow> True | Some a \<Rightarrow> magnitude a < magnitude b)
                then Some b else acc"
    have "(if GreaterThan (bump b (currentVersion r)) (bumped (currentVersion r) acc)
           then bump b (currentVersion r) else bumped (currentVersion r) acc)
          = bumped (currentVersion r) ?acc"
      by (simp add: GreaterThan_bump_bumped) (simp add: bumped_def)
    then have "walkCommits r cs (bumped (currentVersion r) ?acc) = Inr v"
      using Cons.prems c p by simp
    then have "v = bumped (currentVersion r) (topBumper (insert ?acc (classified r ` set cs)))"
      by (rule Cons.IH)
    then show ?thesis
      using Some c by (simp add: classified_def topBumper_step)
  qed
qed

lemma walkCommits_succeeds_iff:
  "(\<exists>v. walkCommits r cs nv = Inr v)
     \<longleftrightarrow> (\<forall>c \<in> set cs. \<exists>commit x. c = Some commit \<and> parseCommit r commit = Inr x)"
proof (induction cs arbitrary: nv)
  case Nil
  then show ?case by simp
next
  case (Cons c cs)
  show ?case
  proof (cases c)
    case None
    then show ?thesis by simp
  next
    case (Some commit)
    then show ?thesis
      using Cons.IH by (cases "parseCommit r commit") (auto split: option.splits)
  qed
qed

lemma walkCommits_set:
  assumes "set cs' = set cs"
  shows "walkCommits r cs' (currentVersion r) = Inr v \<longleftrightarrow> walkCommits r cs (currentVersion r) = Inr v"
proof -
  have top: "walkCommits r xs (currentVersion r) = Inr u
      \<Longrightarrow> u = bumped (currentVersion r) (topBumper (insert None (classified r ` set xs)))" for xs u
    using walkCommits_top[of r xs None u] by (simp add: bumped_def)
  have ex: "(\<exists>u. walkCommits r cs' (currentVersion r) = Inr u) \<longleftrightarrow> (\<exists>u. walkCommits r cs (currentVersion r) = Inr u)"
    unfolding walkCommits_succeeds_iff assms ..
  show ?thesis
  proof
    assume a: "walkCommits r cs' (currentVersion r) = Inr v"
    then obtain u where u: "walkCommits r cs (currentVersion r) = Inr u" using ex by auto
    show "walkCommits r cs (currentVersion r) = Inr v"
      using top[OF a] top[OF u] u assms by simp
  next
    assume a: "walkCommits r cs (currentVersion r) = Inr v"
    then obtain u where u: "walkCommits r cs' (currentVersion r) = Inr u" using ex by auto
    show "walkCommits r cs' (currentVersion r) = Inr v"
      using top[OF a] top[OF u] u assms by simp
  qed
qed

lemma walkCommits_set_eq:
  assumes "set cs' = set cs"
  shows "map_sum (\<lambda>e. ()) id (walkCommits r cs' (currentVersion r))
       = map_sum (\<lambda>e. ()) id (walkCommits r cs (currentVersion r))"
proof (cases "walkCommits r cs (currentVersion r)")
  case (Inl e)
  then have "\<not> (\<exists>v. walkCommits r cs' (currentVersion r) = Inr v)"
    using walkCommits_set[OF assms] by auto
  then obtain e' where "walkCommits r cs' (currentVersion r) = Inl e'"
    by (cases "walkCommits r cs' (currentVersion r)") auto
  then show ?thesis using Inl by simp
next
  case (Inr v)
  then show ?thesis using walkCommits_set[OF assms, of r v] by simp
qed


lemma topBumper_max:
  assumes "Some b \<in> S"
  shows "\<exists>b'. topBumper S = Some b' \<and> Some b' \<in> S
           \<and> (\<forall>b''. Some b'' \<in> S \<longrightarrow> magnitude b'' \<le> magnitude b')"
proof -
  have m: "magnitude x \<le> 3 \<and> (Some majorBumper \<notin> S \<longrightarrow> Some x \<in> S \<longrightarrow> magnitude x \<le> 2)
         \<and> (Some majorBumper \<notin> S \<longrightarrow> Some minorBumper \<notin> S \<longrightarrow> Some x \<in> S \<longrightarrow> magnitude x \<le> 1)" for x
    by (cases x) auto
  show ?thesis
    using assms m by (cases b) (auto simp: topBumper_def)
qed

lemma classified_mem:
  "Some b \<in> insert None (classified r ` set cs)
     \<longleftrightarrow> (\<exists>c. Some c \<in> set cs \<and> schemeBumper r (Message c) = Some b)"
proof
  assume "Some b \<in> insert None (classified r ` set cs)"
  then obtain x where x: "x \<in> set cs" "classified r x = Some b" by auto
  from x(2) obtain c where "x = Some c" by (cases x) (simp_all add: classified_def)
  then show "\<exists>c. Some c \<in> set cs \<and> schemeBumper r (Message c) = Some b"
    using x by (auto simp: classified_def)
next
  assume "\<exists>c. Some c \<in> set cs \<and> schemeBumper r (Message c) = Some b"
  then obtain c where c: "Some c \<in> set cs" "schemeBumper r (Message c) = Some b" by auto
  then have "classified r (Some c) = Some b" by (simp add: classified_def)
  then have "Some b \<in> classified r ` set cs" using c(1) by (metis image_eqI)
  then show "Some b \<in> insert None (classified r ` set cs)" by simp
qed

lemma bumpVersion_walk:
  "bumpVersion r l = Inr nv \<Longrightarrow> \<exists>u. walkCommits r (rev l) (currentVersion r) = Inr u"
  by (cases "walkCommits r (rev l) (currentVersion r)")
     (simp_all add: bumpVersion_def split: if_splits)

lemma bumpVersion_highest:
  assumes ok: "bumpVersion r l = Inr nv"
    and cl: "Some c \<in> set l" "schemeBumper r (Message c) = Some b"
  shows "\<exists>c' b'. Some c' \<in> set l \<and> schemeBumper r (Message c') = Some b'
           \<and> nv = bump b' (currentVersion r)
           \<and> (\<forall>c'' b''. Some c'' \<in> set l \<and> schemeBumper r (Message c'') = Some b''
                  \<longrightarrow> magnitude b'' \<le> magnitude b')"
proof -
  let ?S = "insert None (classified r ` set (rev l))"
  obtain u where u: "walkCommits r (rev l) (currentVersion r) = Inr u"
    using bumpVersion_walk[OF ok] by auto
  have top: "u = bumped (currentVersion r) (topBumper ?S)"
    using walkCommits_top[of r "rev l" None u] u by (simp add: bumped_def)
  have "Some b \<in> ?S"
    unfolding classified_mem using cl by auto
  from topBumper_max[OF this]
  obtain b' where b': "topBumper ?S = Some b'" "Some b' \<in> ?S"
    "\<forall>b''. Some b'' \<in> ?S \<longrightarrow> magnitude b'' \<le> magnitude b'"
    by auto
  from b'(2) obtain c' where c': "Some c' \<in> set l" "schemeBumper r (Message c') = Some b'"
    unfolding classified_mem by auto
  have ub: "u = bump b' (currentVersion r)"
    using top b'(1) by (simp add: bumped_def)
  then have "\<not> Equal u (currentVersion r)"
    by (simp add: Equal_def Compare_bump_baseline)
  then have nv: "nv = bump b' (currentVersion r)"
    using ok u ub by (simp add: bumpVersion_def split: if_splits)
  have mx: "magnitude b'' \<le> magnitude b'"
    if "Some c'' \<in> set l \<and> schemeBumper r (Message c'') = Some b''" for c'' b''
  proof -
    have "Some b'' \<in> ?S" unfolding classified_mem using that by auto
    then show ?thesis using b'(3) by simp
  qed
  show ?thesis
    using c' nv mx by (intro exI[of _ c'] exI[of _ b']) simp
qed

lemma bumpVersion_perm:
  assumes "mset l' = mset l"
  shows "bumpVersion r l' = Inr nv \<longleftrightarrow> bumpVersion r l = Inr nv"
proof -
  have s: "set (rev l') = set (rev l)" and e: "length l' = length l"
    using assms by (auto dest: mset_eq_setD mset_eq_length)
  have w: "walkCommits r (rev l') (currentVersion r) = Inr u
         \<longleftrightarrow> walkCommits r (rev l) (currentVersion r) = Inr u" for u
    using walkCommits_set[OF s] .
  show ?thesis
  proof (cases "walkCommits r (rev l) (currentVersion r)")
    case (Inl x)
    then have "\<not> (\<exists>u. walkCommits r (rev l') (currentVersion r) = Inr u)"
      using w by simp
    then obtain y where "walkCommits r (rev l') (currentVersion r) = Inl y"
      by (cases "walkCommits r (rev l') (currentVersion r)") auto
    then show ?thesis using Inl by (simp add: bumpVersion_def)
  next
    case (Inr u)
    then have "walkCommits r (rev l') (currentVersion r) = Inr u" using w by simp
    then show ?thesis using Inr e by (simp add: bumpVersion_def)
  qed
qed

lemma resolveVersion_perm:
  assumes "mset l' = mset l"
  shows "resolveVersion w r l' = Inr v \<longleftrightarrow> resolveVersion w r l = Inr v"
proof (cases "bumpVersion r l")
  case (Inl x)
  then have "\<not> (\<exists>nv. bumpVersion r l' = Inr nv)"
    using bumpVersion_perm[OF assms] by simp
  then obtain y where "bumpVersion r l' = Inl y"
    by (cases "bumpVersion r l'") auto
  then show ?thesis using Inl by (simp add: resolveVersion_def)
next
  case (Inr nv)
  then have "bumpVersion r l' = Inr nv" using bumpVersion_perm[OF assms] by simp
  then show ?thesis using Inr by (simp add: resolveVersion_def)
qed

text \<open>
  C2. The version that the bump selection leaves is the baseline bumped by the highest
  magnitude among the commits of the range that classify: whenever a commit of the range
  classifies, the selected version is the bump by the bumper of some commit of the range, and
  no commit of the range classifies to a higher magnitude. The order of the range does not
  matter: a permutation of the slice resolves to a version exactly when the slice does, and
  then to the same one.
\<close>

theorem C2_highest_magnitude_any_order:
  assumes perm: "mset l' = mset l"
  shows "(resolveVersion w r l' = Inr v \<longleftrightarrow> resolveVersion w r l = Inr v)
       \<and> (bumpVersion r l = Inr nv \<and> Some c \<in> set l \<and> schemeBumper r (Message c) = Some b
            \<longrightarrow> (\<exists>c' b'. Some c' \<in> set l \<and> schemeBumper r (Message c') = Some b'
                   \<and> nv = bump b' (currentVersion r)
                   \<and> (\<forall>c'' b''. Some c'' \<in> set l \<and> schemeBumper r (Message c'') = Some b''
                          \<longrightarrow> magnitude b'' \<le> magnitude b')))"
proof (intro conjI impI)
  show "resolveVersion w r l' = Inr v \<longleftrightarrow> resolveVersion w r l = Inr v"
    by (rule resolveVersion_perm[OF perm])
next
  assume "bumpVersion r l = Inr nv \<and> Some c \<in> set l \<and> schemeBumper r (Message c) = Some b"
  then show "\<exists>c' b'. Some c' \<in> set l \<and> schemeBumper r (Message c') = Some b'
                   \<and> nv = bump b' (currentVersion r)
                   \<and> (\<forall>c'' b''. Some c'' \<in> set l \<and> schemeBumper r (Message c'') = Some b''
                          \<longrightarrow> magnitude b'' \<le> magnitude b')"
    using bumpVersion_highest[of r l nv c b] by simp
qed




text \<open>
  The theorem at the range of the repository's test ``Major between minor changes'' and one
  of its permutations: both resolve to \<^verbatim>\<open>2.0.0\<close>.
\<close>

theorem C2_highest_magnitude_any_order_witness:
  "resolveVersion (exampleWorld [] []) exampleGitRepo
     (exampleCommits [''[minor]: thing 2'', ''[major]: drop support for Node 6'', ''[minor]: thing 1''])
     = Inr \<lparr>major = 2, minor = 0, patch = 0, extra = [], pre = [], metadata = []\<rparr>
   \<and> resolveVersion (exampleWorld [] []) exampleGitRepo
     (exampleCommits [''[major]: drop support for Node 6'', ''[minor]: thing 1'', ''[minor]: thing 2''])
     = Inr \<lparr>major = 2, minor = 0, patch = 0, extra = [], pre = [], metadata = []\<rparr>"
proof -
  let ?l = "exampleCommits [''[minor]: thing 2'', ''[major]: drop support for Node 6'', ''[minor]: thing 1'']"
  let ?l' = "exampleCommits [''[major]: drop support for Node 6'', ''[minor]: thing 1'', ''[minor]: thing 2'']"
  have p: "mset ?l' = mset ?l"
    by (simp add: exampleCommits_def add_mset_commute)
  have e: "resolveVersion (exampleWorld [] []) exampleGitRepo ?l
     = Inr \<lparr>major = 2, minor = 0, patch = 0, extra = [], pre = [], metadata = []\<rparr>"
    by (simp add: exampleCommits_def char_defs number_defs version_defs classifier_defs
        resolution_defs example_defs)
  note t = C2_highest_magnitude_any_order[OF p, where w = "exampleWorld [] []" and r = exampleGitRepo
      and v = "\<lparr>major = 2, minor = 0, patch = 0, extra = [], pre = [], metadata = []\<rparr>",
      THEN conjunct1, THEN iffD2, OF e]
  show ?thesis
    using e t by (intro conjI)
qed



section \<open>The build number\<close>

lemma parseCommit_buildNumber: "parseCommit (r\<lparr>buildNumber := b\<rparr>) c = parseCommit r c"
  by (auto simp: parseCommit_def schemeBumper_def Let_def split: option.splits)

lemma walkCommits_buildNumber:
  "walkCommits (r\<lparr>buildNumber := b\<rparr>) cs nv = walkCommits r cs nv"
  by (induction cs arbitrary: nv)
     (auto simp: parseCommit_buildNumber split: option.splits sum.splits)

lemma bumpVersion_buildNumber: "bumpVersion (r\<lparr>buildNumber := b\<rparr>) l = bumpVersion r l"
  by (auto simp: bumpVersion_def walkCommits_buildNumber split: sum.splits)

lemma appendPreRelease_buildNumber:
  "appendPreRelease w (r\<lparr>buildNumber := b\<rparr>) nv = appendPreRelease w r nv"
  by (simp add: appendPreRelease_def)

text \<open>The version before the build metadata is appended.\<close>

lemma resolveVersion_without_buildNumber:
  assumes "buildMetadata r = []"
  shows "resolveVersion w (r\<lparr>buildNumber := False\<rparr>) l
           = (case bumpVersion r l of Inl e \<Rightarrow> Inl e | Inr nv \<Rightarrow> appendPreRelease w r nv)"
  using assms
  by (auto simp: resolveVersion_def bumpVersion_buildNumber appendPreRelease_buildNumber
      appendBuildMetadata_def split: sum.splits)

lemma resolveVersion_with_buildNumber:
  assumes "buildMetadata r = []"
  shows "resolveVersion w (r\<lparr>buildNumber := True\<rparr>) l
           = (case resolveVersion w (r\<lparr>buildNumber := False\<rparr>) l of
                Inl e \<Rightarrow> Inl e
              | Inr nv \<Rightarrow>
                  (case buildNumberOf (Metadata (latestTagVersion r)) of
                     Inl e \<Rightarrow> Inl e
                   | Inr counter \<Rightarrow> newVersionOrError (version_String nv @ ''+'' @ counter)))"
  unfolding resolveVersion_without_buildNumber[OF assms]
  using assms
  by (auto simp: resolveVersion_def bumpVersion_buildNumber appendPreRelease_buildNumber
      appendBuildMetadata_def split: sum.splits)

lemma parseTags_latest:
  assumes "parseTags w cfg rp = Inr r'"
  shows "\<exists>tags versions c rest. Tags rp = Some tags \<and> collectVersions rp tags = Inr versions
           \<and> sortOutcome w versions = (latestTagVersion r', c) # rest"
  using assms
  by (auto simp: parseTags_def split: option.splits sum.splits list.splits prod.splits)

text \<open>
  C1, as the code has it. With the build number enabled (and no literal build metadata, which
  validation excludes), the resolved version is the version resolved without the build
  number, then a plus sign and a counter, handed to \<^verbatim>\<open>version.NewVersion\<close>. The counter
  comes from the build metadata of \<^verbatim>\<open>latestTagVersion\<close>, the first key that the descending
  sort leaves, which is the highest tag that parses, a pre-release tag included, and not
  always the baseline. When that field is empty the counter is 1; when it parses as an
  unsigned integer the counter is its value plus 1 (its decimal value, the sum an addition
  of \<^verbatim>\<open>uint64\<close>, which is the sum of the integers below \<open>2^64 - 1\<close>); when it is not
  empty and holds a byte that is not a digit, the run fails, with the error of the build
  number if nothing failed before.
\<close>

theorem C1_build_number_from_latest_tag:
  assumes nometa: "buildMetadata r = []"
  shows "(Metadata (latestTagVersion r) = [] \<longrightarrow>
            resolveVersion w (r\<lparr>buildNumber := True\<rparr>) l
              = (case resolveVersion w (r\<lparr>buildNumber := False\<rparr>) l of
                   Inl e \<Rightarrow> Inl e
                 | Inr nv \<Rightarrow> newVersionOrError (version_String nv @ ''+'' @ ''1'')))
       \<and> (strconv_ParseUint (Metadata (latestTagVersion r)) = Some n \<longrightarrow>
            resolveVersion w (r\<lparr>buildNumber := True\<rparr>) l
              = (case resolveVersion w (r\<lparr>buildNumber := False\<rparr>) l of
                   Inl e \<Rightarrow> Inl e
                 | Inr nv \<Rightarrow>
                     newVersionOrError (version_String nv @ ''+'' @ strconv_FormatUint (n + 1)))
          \<and> unat n = decimalValue (Metadata (latestTagVersion r))
          \<and> (decimalValue (Metadata (latestTagVersion r)) < 2 ^ 64 - 1
               \<longrightarrow> unat (n + 1) = decimalValue (Metadata (latestTagVersion r)) + 1))
       \<and> (Metadata (latestTagVersion r) \<noteq> []
            \<and> \<not> list_all isDigit (Metadata (latestTagVersion r)) \<longrightarrow>
            (\<exists>e. resolveVersion w (r\<lparr>buildNumber := True\<rparr>) l = Inl e)
          \<and> (\<forall>nv. resolveVersion w (r\<lparr>buildNumber := False\<rparr>) l = Inr nv
                 \<longrightarrow> resolveVersion w (r\<lparr>buildNumber := True\<rparr>) l
                       = Inl BuildNumberNotUnsigned))
       \<and> (parseTags w cfg rp = Inr r' \<longrightarrow>
            (\<exists>tags versions c rest. Tags rp = Some tags
                \<and> collectVersions rp tags = Inr versions
                \<and> sortOutcome w versions = (latestTagVersion r', c) # rest))"
proof (intro conjI impI)
  assume "Metadata (latestTagVersion r) = []"
  then have "buildNumberOf (Metadata (latestTagVersion r)) = Inr ''1''"
    by (simp add: buildNumberOf_def)
  then show "resolveVersion w (r\<lparr>buildNumber := True\<rparr>) l
              = (case resolveVersion w (r\<lparr>buildNumber := False\<rparr>) l of
                   Inl e \<Rightarrow> Inl e
                 | Inr nv \<Rightarrow> newVersionOrError (version_String nv @ ''+'' @ ''1''))"
    by (simp add: resolveVersion_with_buildNumber[OF nometa] split: sum.splits)
next
  assume p: "strconv_ParseUint (Metadata (latestTagVersion r)) = Some n"
  then have ne: "Metadata (latestTagVersion r) \<noteq> []"
    by (auto simp: strconv_ParseUint_def)
  then have "buildNumberOf (Metadata (latestTagVersion r)) = Inr (strconv_FormatUint (n + 1))"
    using p by (simp add: buildNumberOf_def)
  then show "resolveVersion w (r\<lparr>buildNumber := True\<rparr>) l
              = (case resolveVersion w (r\<lparr>buildNumber := False\<rparr>) l of
                   Inl e \<Rightarrow> Inl e
                 | Inr nv \<Rightarrow>
                     newVersionOrError (version_String nv @ ''+'' @ strconv_FormatUint (n + 1)))"
    by (simp add: resolveVersion_with_buildNumber[OF nometa] split: sum.splits)
  show u: "unat n = decimalValue (Metadata (latestTagVersion r))"
    using p by (simp add: strconv_ParseUint_Some)
  show "unat (n + 1) = decimalValue (Metadata (latestTagVersion r)) + 1"
    if "decimalValue (Metadata (latestTagVersion r)) < 2 ^ 64 - 1"
    using that u uint64_increment[of n] by simp
next
  assume h: "Metadata (latestTagVersion r) \<noteq> []
            \<and> \<not> list_all isDigit (Metadata (latestTagVersion r))"
  then have "strconv_ParseUint (Metadata (latestTagVersion r)) = None"
    by (simp add: strconv_ParseUint_not_numeric)
  then have b: "buildNumberOf (Metadata (latestTagVersion r)) = Inl BuildNumberNotUnsigned"
    using h by (simp add: buildNumberOf_def)
  show "\<exists>e. resolveVersion w (r\<lparr>buildNumber := True\<rparr>) l = Inl e"
    by (cases "resolveVersion w (r\<lparr>buildNumber := False\<rparr>) l")
       (simp_all add: resolveVersion_with_buildNumber[OF nometa] b)
  show "\<forall>nv. resolveVersion w (r\<lparr>buildNumber := False\<rparr>) l = Inr nv
                 \<longrightarrow> resolveVersion w (r\<lparr>buildNumber := True\<rparr>) l
                       = Inl BuildNumberNotUnsigned"
    by (simp add: resolveVersion_with_buildNumber[OF nometa] b)
next
  assume "parseTags w cfg rp = Inr r'"
  then show "\<exists>tags versions c rest. Tags rp = Some tags
                \<and> collectVersions rp tags = Inr versions
                \<and> sortOutcome w versions = (latestTagVersion r', c) # rest"
    by (rule parseTags_latest)
qed

text \<open>
  The theorem at a baseline \<^verbatim>\<open>1.0.0\<close> whose latest tag is \<^verbatim>\<open>1.0.1-dev.1+123\<close>, with
  an empty range: \<^verbatim>\<open>1.0.1+124\<close>.
\<close>

theorem C1_build_number_from_latest_tag_witness:
  "resolveVersion (exampleWorld [] [])
     (exampleGitRepo\<lparr>latestTagVersion :=
        \<lparr>major = 1, minor = 0, patch = 1, extra = [], pre = ''dev.1'', metadata = ''123''\<rparr>,
        buildNumber := True\<rparr>) []
     = Inr \<lparr>major = 1, minor = 0, patch = 1, extra = [], pre = [], metadata = ''124''\<rparr>"
proof -
  let ?r = "exampleGitRepo\<lparr>latestTagVersion :=
        \<lparr>major = 1, minor = 0, patch = 1, extra = [], pre = ''dev.1'', metadata = ''123''\<rparr>\<rparr>"
  have a: "buildMetadata ?r = []" by (simp add: exampleGitRepo_def)
  have b: "strconv_ParseUint (Metadata (latestTagVersion ?r)) = Some 123"
    by (simp add: Metadata_def number_defs char_defs)
  have c: "resolveVersion (exampleWorld [] []) (?r\<lparr>buildNumber := False\<rparr>) []
             = Inr \<lparr>major = 1, minor = 0, patch = 1, extra = [], pre = [], metadata = []\<rparr>"
    by (simp add: char_defs number_defs version_defs classifier_defs resolution_defs example_defs)
  have d: "newVersionOrError
             (version_String \<lparr>major = 1, minor = 0, patch = 1, extra = [], pre = [], metadata = []\<rparr>
                @ ''+'' @ strconv_FormatUint (123 + 1))
             = Inr \<lparr>major = 1, minor = 0, patch = 1, extra = [], pre = [], metadata = ''124''\<rparr>"
    by (simp add: char_defs number_defs version_defs)
  note t = C1_build_number_from_latest_tag[OF a, where w = "exampleWorld [] []" and l = "[]"
      and n = 123, THEN conjunct2, THEN conjunct1, THEN mp, OF b, THEN conjunct1]
  show ?thesis
    by (rule trans[OF t[unfolded c sum.case] d])
qed

text \<open>
  C1 as the spec states it fails: with the tags \<^verbatim>\<open>v1.0.1\<close> and \<^verbatim>\<open>v1.0.2-dev.1+7\<close>
  the baseline is \<^verbatim>\<open>1.0.1\<close>, whose build metadata is empty, and the counter of the
  resolved version is 8, one more than the build metadata of the pre-release tag, not 1.
\<close>

theorem C1_latest_tag_counterexample:
  "map_sum id (\<lambda>r. Metadata (currentVersion r))
     (NewRepo (exampleWorld [''v1.0.1'', ''v1.0.2-dev.1+7''] [])
        (exampleConfig\<lparr>BuildNumber := True\<rparr>)) = Inr []
   \<and> resolved (NewRepo (exampleWorld [''v1.0.1'', ''v1.0.2-dev.1+7''] [])
        (exampleConfig\<lparr>BuildNumber := True\<rparr>)) = Inr (Some ''1.0.2+8'')"
  by (simp add: char_defs number_defs version_defs classifier_defs config_defs resolution_defs
      example_defs)

end
